theory Spec2Isabelle
  imports Complex_Main "HOL-Library.Multiset" "HOL-Library.Char_ord" "HOL-Library.List_Lexorder"
begin

section \<open>JavaScript values\<close>

subsection \<open>Strings\<close>

text \<open>
  A JavaScript string is modelled as a \<open>string\<close>, a list of 8-bit characters, and the
  value \<open>undefined\<close> as \<open>None\<close>. The case mapping and the white space below are the
  ASCII ones: a character above 127 is neither a letter, a digit nor white space here.
\<close>

definition isDigit :: "char \<Rightarrow> bool" where
  "isDigit c = (c \<in> set ''0123456789'')"

definition isUpper :: "char \<Rightarrow> bool" where
  "isUpper c = (c \<in> set ''ABCDEFGHIJKLMNOPQRSTUVWXYZ'')"

definition isLower :: "char \<Rightarrow> bool" where
  "isLower c = (c \<in> set ''abcdefghijklmnopqrstuvwxyz'')"

definition isSpace :: "char \<Rightarrow> bool" where
  "isSpace c = (c \<in> {CHR 0x09, CHR 0x0A, CHR 0x0B, CHR 0x0C, CHR 0x0D, CHR '' ''})"

definition upperChar :: "char \<Rightarrow> char" where
  "upperChar c =
     (case map_of (zip ''abcdefghijklmnopqrstuvwxyz'' ''ABCDEFGHIJKLMNOPQRSTUVWXYZ'') c of
        None \<Rightarrow> c
      | Some u \<Rightarrow> u)"

definition toUpperCase :: "string \<Rightarrow> string" where
  "toUpperCase s = map upperChar s"


definition trim :: "string \<Rightarrow> string" where
  "trim s = rev (dropWhile isSpace (rev (dropWhile isSpace s)))"

subsection \<open>Numbers\<close>

text \<open>
  A JavaScript number is a double. The model keeps what the program can observe of it:
  whether it is \<open>NaN\<close>, an infinity or finite, and for a finite double the rational it
  stands for. \<open>toDouble\<close> is the conversion of an exact value to a double as far as
  that matters here: a magnitude of at least \<open>2^1024 - 2^970\<close> rounds to an infinity, one
  of at most \<open>2^-1075\<close> rounds to zero, and in between the nearest double is represented
  by the exact value. Negative zero is identified with zero.
\<close>

datatype jsnum = Num rat | PosInf | NegInf | NaN

definition dblLimit :: rat where
  "dblLimit = 2 ^ 1024 - 2 ^ 970"

definition dblTiny :: rat where
  "dblTiny = 1 / 2 ^ 1075"

definition toDouble :: "rat \<Rightarrow> jsnum" where
  "toDouble v =
     (if dblLimit \<le> v then PosInf
      else if v \<le> - dblLimit then NegInf
      else if \<bar>v\<bar> \<le> dblTiny then Num 0
      else Num v)"

definition isFinite :: "jsnum \<Rightarrow> bool" where
  "isFinite n = (case n of Num v \<Rightarrow> True | _ \<Rightarrow> False)"

text \<open>\<open>x || 0\<close> on a number: \<open>NaN\<close> and zero are the falsy numbers.\<close>

definition orZero :: "jsnum \<Rightarrow> jsnum" where
  "orZero n = (if n = NaN \<or> n = Num 0 then Num 0 else n)"

text \<open>The comparison \<open>a > b\<close> of two numbers: false as soon as one is \<open>NaN\<close>.\<close>

fun js_gt :: "jsnum \<Rightarrow> jsnum \<Rightarrow> bool" where
  "js_gt NaN b = False"
| "js_gt a NaN = False"
| "js_gt NegInf b = False"
| "js_gt a PosInf = False"
| "js_gt PosInf b = True"
| "js_gt a NegInf = True"
| "js_gt (Num a) (Num b) = (b < a)"

subsection \<open>parseFloat\<close>

text \<open>
  The built-in \<open>parseFloat\<close>: skip leading white space, read the longest prefix that is
  a decimal literal (a sign, then \<open>Infinity\<close> or digits with an optional fraction and an
  optional exponent), and return \<open>NaN\<close> when there is none.
\<close>

definition digitsVal :: "string \<Rightarrow> int" where
  "digitsVal ds = foldl (\<lambda>v c. 10 * v + (of_char c - 48)) 0 ds"

definition pow10 :: "int \<Rightarrow> rat" where
  "pow10 e = (if 0 \<le> e then 10 ^ nat e else 1 / 10 ^ nat (- e))"

definition exponentPart :: "string \<Rightarrow> int" where
  "exponentPart r =
     (if r \<noteq> [] \<and> (hd r = CHR ''e'' \<or> hd r = CHR ''E'') then
        (let r1 = tl r;
             neg = (r1 \<noteq> [] \<and> hd r1 = CHR ''-'');
             r2 = (if r1 \<noteq> [] \<and> (hd r1 = CHR ''-'' \<or> hd r1 = CHR ''+'') then tl r1 else r1);
             ed = takeWhile isDigit r2
         in if ed = [] then 0
            else if neg then - digitsVal ed else digitsVal ed)
      else 0)"

definition parseFloat :: "string \<Rightarrow> jsnum" where
  "parseFloat s =
     (let t = dropWhile isSpace s;
          neg = (t \<noteq> [] \<and> hd t = CHR ''-'');
          u = (if t \<noteq> [] \<and> (hd t = CHR ''-'' \<or> hd t = CHR ''+'') then tl t else t)
      in if take 8 u = ''Infinity'' then (if neg then NegInf else PosInf)
         else
           (let ip = takeWhile isDigit u;
                r1 = dropWhile isDigit u;
                dot = (r1 \<noteq> [] \<and> hd r1 = CHR ''.'');
                fp = (if dot then takeWhile isDigit (tl r1) else []);
                r2 = (if dot then dropWhile isDigit (tl r1) else r1)
            in if ip = [] \<and> fp = [] then NaN
               else
                 (let m = of_int (digitsVal ip) + of_int (digitsVal fp) / 10 ^ length fp;
                      v = m * pow10 (exponentPart r2)
                  in toDouble (if neg then - v else v))))"

section \<open>Record normalizer\<close>

text \<open>
  The three helpers of \<open>scrapeStockData\<close>:
  \<^verbatim>\<open>cleanSymbol = (str) => (str || '').replace(/[^A-Z0-9]/gi, '').toUpperCase()\<close>,
  \<^verbatim>\<open>cleanText = (str) => (str || '').trim()\<close> and \<open>parseNumber\<close>, which returns 0 on a
  falsy argument, on \<open>'-'\<close> and on \<open>'N/A'\<close>, and otherwise removes every character that
  is not a digit, a dot or a minus sign and returns \<^verbatim>\<open>parseFloat(cleaned) || 0\<close>.
\<close>

definition orEmpty :: "string option \<Rightarrow> string" where
  "orEmpty str = (case str of None \<Rightarrow> [] | Some s \<Rightarrow> s)"

definition isAlnum :: "char \<Rightarrow> bool" where
  "isAlnum c = (isUpper c \<or> isLower c \<or> isDigit c)"

definition cleanSymbol :: "string option \<Rightarrow> string" where
  "cleanSymbol str = toUpperCase (filter isAlnum (orEmpty str))"

definition cleanText :: "string option \<Rightarrow> string" where
  "cleanText str = trim (orEmpty str)"

definition numericChar :: "char \<Rightarrow> bool" where
  "numericChar c = (isDigit c \<or> c = CHR ''.'' \<or> c = CHR ''-'')"

definition parseNumber :: "string option \<Rightarrow> jsnum" where
  "parseNumber str =
     (case str of
        None \<Rightarrow> Num 0
      | Some s \<Rightarrow>
          if s = [] \<or> s = ''-'' \<or> s = ''N/A'' then Num 0
          else orZero (parseFloat (filter numericChar s)))"

section \<open>Table extractor\<close>

text \<open>
  The object built for a table row by the function that \<open>scrapeStockData\<close> evaluates in
  the page, and the object it becomes once \<open>scrapedAt\<close> has been added. Dates are
  milliseconds since the epoch. A row of the table is the list of the \<open>innerText\<close>
  of its \<open>td\<close> cells.
\<close>

record stockRow =
  symbol :: string
  securityName :: string
  openPrice :: jsnum
  high :: jsnum
  low :: jsnum
  close :: jsnum
  change :: jsnum
  dailyVolume :: jsnum
  dailyValue :: jsnum

record stockInfo = stockRow +
  scrapedAt :: int

text \<open>\<^verbatim>\<open>cells[8]?.innerText || '0'\<close>: the text of the ninth cell unless it is missing or empty.\<close>

definition ninthCell :: "string list \<Rightarrow> string" where
  "ninthCell cells = (if 8 < length cells \<and> cells ! 8 \<noteq> [] then cells ! 8 else ''0'')"

definition rowStock :: "string list \<Rightarrow> stockRow" where
  "rowStock cells =
     \<lparr> symbol = cleanSymbol (Some (cells ! 0)),
       securityName = cleanText (Some (cells ! 1)),
       openPrice = parseNumber (Some (cells ! 2)),
       high = parseNumber (Some (cells ! 3)),
       low = parseNumber (Some (cells ! 4)),
       close = parseNumber (Some (cells ! 5)),
       change = parseNumber (Some (cells ! 6)),
       dailyVolume = parseNumber (Some (cells ! 7)),
       dailyValue = parseNumber (Some (ninthCell cells)) \<rparr>"

text \<open>The \<open>forEach\<close> over the rows, pushing one object for each row of at least 8 cells.\<close>

fun pushRows :: "stockRow list \<Rightarrow> string list list \<Rightarrow> stockRow list" where
  "pushRows stocks [] = stocks"
| "pushRows stocks (cells # rows) =
     pushRows (if 8 \<le> length cells then stocks @ [rowStock cells] else stocks) rows"

text \<open>\<^verbatim>\<open>stocks.filter((s) => s.symbol && s.close > 0)\<close>: a string is truthy when not empty.\<close>

definition validStock :: "stockRow \<Rightarrow> bool" where
  "validStock s = (symbol s \<noteq> [] \<and> js_gt (close s) (Num 0))"

definition extractStocks :: "string list list \<Rightarrow> stockRow list" where
  "extractStocks rows = filter validStock (pushRows [] rows)"

text \<open>
  \<^verbatim>\<open>stockData.map((stock) => ({ ...stock, scrapedAt: new Date() }))\<close>: the clock is read once
  for each object; \<open>clock i\<close> is the reading for the object at index \<open>i\<close>.
\<close>

definition withScrapedAt :: "stockRow \<Rightarrow> int \<Rightarrow> stockInfo" where
  "withScrapedAt s t =
     \<lparr> symbol = symbol s, securityName = securityName s, openPrice = openPrice s,
       high = high s, low = low s, close = close s, change = change s,
       dailyVolume = dailyVolume s, dailyValue = dailyValue s, scrapedAt = t \<rparr>"

definition addMetadata :: "(nat \<Rightarrow> int) \<Rightarrow> stockRow list \<Rightarrow> stockInfo list" where
  "addMetadata clock stockData =
     map (\<lambda>(i, s). withScrapedAt s (clock i)) (enumerate 0 stockData)"

section \<open>Upsert store\<close>

text \<open>
  The collection behind the \<open>Stock\<close> model is the list of its documents in insertion
  order. A document has the paths of the schema and its \<open>_id\<close>, here \<open>oid\<close>; the
  bookkeeping paths \<open>createdAt\<close>, \<open>updatedAt\<close> and \<open>__v\<close>, which no operation reads, are
  left out. The schema options of \<open>symbol\<close> (\<open>uppercase\<close>, \<open>trim\<close>) and of
  \<open>securityName\<close> (\<open>trim\<close>) are setters, which Mongoose applies to the values of an
  update and to the values of a query filter alike.
\<close>

record stockDoc = stockInfo +
  oid :: nat

datatype error = ScrapeError | MongoError | CastError | SyntaxError

definition symbolSetter :: "string \<Rightarrow> string" where
  "symbolSetter s = trim (toUpperCase s)"

text \<open>
  The update of \<open>findOneAndUpdate\<close> is a plain object, which Mongoose sends as a
  \<open>$set\<close> of its ten paths.
\<close>

definition setFields :: "stockInfo \<Rightarrow> stockDoc \<Rightarrow> stockDoc" where
  "setFields u d =
     d\<lparr> symbol := symbolSetter (symbol u), securityName := trim (securityName u),
        openPrice := openPrice u, high := high u, low := low u, close := close u,
        change := change u, dailyVolume := dailyVolume u, dailyValue := dailyValue u,
        scrapedAt := scrapedAt u \<rparr>"

text \<open>
  The document an upsert inserts: the paths of the update under a new \<open>_id\<close>. The one
  path with a default, \<open>scrapedAt\<close>, is set by the update, so \<open>setDefaultsOnInsert\<close>
  has nothing to add.
\<close>

definition newDoc :: "stockInfo \<Rightarrow> nat \<Rightarrow> stockDoc" where
  "newDoc u n =
     \<lparr> symbol = symbolSetter (symbol u), securityName = trim (securityName u),
       openPrice = openPrice u, high = high u, low = low u, close = close u,
       change = change u, dailyVolume = dailyVolume u, dailyValue = dailyValue u,
       scrapedAt = scrapedAt u, oid = n \<rparr>"

definition freshId :: "stockDoc list \<Rightarrow> nat" where
  "freshId db = foldr (\<lambda>d m. max (Suc (oid d)) m) db 0"

fun replaceFirst :: "('a \<Rightarrow> bool) \<Rightarrow> ('a \<Rightarrow> 'a) \<Rightarrow> 'a list \<Rightarrow> 'a list" where
  "replaceFirst P f [] = []"
| "replaceFirst P f (d # ds) = (if P d then f d # ds else d # replaceFirst P f ds)"

text \<open>
  \<^verbatim>\<open>Stock.findOneAndUpdate({ symbol: sym }, u, { upsert: true, new: true, setDefaultsOnInsert: true })\<close>
  on the collection \<open>db\<close>: the new collection and the document as it is after the
  update. \<open>fault\<close> says that the datastore rejects the call.
\<close>

definition findOneAndUpdate ::
  "bool \<Rightarrow> stockDoc list \<Rightarrow> string \<Rightarrow> stockInfo \<Rightarrow> error + stockDoc list \<times> stockDoc" where
  "findOneAndUpdate fault db symb u =
     (if fault then Inl MongoError
      else
        (let key = symbolSetter symb in
         case find (\<lambda>d. symbol d = key) db of
           Some d \<Rightarrow> Inr (replaceFirst (\<lambda>d. symbol d = key) (setFields u) db, setFields u d)
         | None \<Rightarrow> (let d = newDoc u (freshId db) in Inr (db @ [d], d))))"

text \<open>
  The loop of \<open>saveToMongoDB\<close>. \<open>faults\<close> is the behaviour of the datastore: its
  \<open>k\<close>-th flag says whether the \<open>k\<close>-th call is rejected, and a call beyond the list is
  not. A rejected \<open>await\<close> throws out of the loop, which has no handler.
\<close>

fun saveLoop ::
  "bool list \<Rightarrow> stockDoc list \<Rightarrow> stockInfo list \<Rightarrow> stockDoc list
     \<Rightarrow> stockDoc list \<times> (error + stockDoc list)" where
  "saveLoop faults db [] savedStocks = (db, Inr savedStocks)"
| "saveLoop faults db (stockInfo # rest) savedStocks =
     (case findOneAndUpdate (faults \<noteq> [] \<and> hd faults) db (symbol stockInfo) stockInfo of
        Inl e \<Rightarrow> (db, Inl e)
      | Inr (db', stock) \<Rightarrow> saveLoop (tl faults) db' rest (savedStocks @ [stock]))"

definition saveToMongoDB ::
  "bool list \<Rightarrow> stockDoc list \<Rightarrow> stockInfo list \<Rightarrow> stockDoc list \<times> (error + stockDoc list)" where
  "saveToMongoDB faults db stockData =
     (if stockData = [] then (db, Inr []) else saveLoop faults db stockData [])"

text \<open>
  \<open>scrapeStockData\<close> from the point where the page has been opened: \<open>page\<close> is either
  the failure of launching, navigating or waiting for the table, or the rows of the
  table. Every error is caught and an empty list returned in its place. The objects
  cross \<open>evaluate\<close> by value, where a number that is not finite arrives as \<open>null\<close>;
  \<open>parseNumber\<close> yields such a number only for a run of more than 308 digits, and the
  model carries the infinity itself.
\<close>

definition scrapeStockData ::
  "error + string list list \<Rightarrow> (nat \<Rightarrow> int) \<Rightarrow> bool list \<Rightarrow> stockDoc list
     \<Rightarrow> stockDoc list \<times> stockDoc list" where
  "scrapeStockData page clock faults db =
     (case page of
        Inl e \<Rightarrow> (db, [])
      | Inr rows \<Rightarrow>
          (case saveToMongoDB faults db (addMetadata clock (extractStocks rows)) of
             (db', Inl e) \<Rightarrow> (db', [])
           | (db', Inr savedStocks) \<Rightarrow> (db', savedStocks)))"

text \<open>The collections the program can produce: it writes through \<open>saveToMongoDB\<close> only.\<close>

inductive reachable :: "stockDoc list \<Rightarrow> bool" where
  initial: "reachable []"
| saved: "reachable db \<Longrightarrow> reachable (fst (saveToMongoDB faults db stockData))"

text \<open>
  The collections the program stores: \<open>saveToMongoDB\<close> has one caller,
  \<open>scrapeStockData\<close>, so every collection is the outcome of a number of scrapes.
\<close>

inductive scraped :: "stockDoc list \<Rightarrow> bool" where
  nothing: "scraped []"
| scrape: "scraped db \<Longrightarrow> scraped (fst (scrapeStockData outcome clock faults db))"

section \<open>Query and aggregation layer\<close>

subsection \<open>Arithmetic and order of numbers\<close>

text \<open>
  The arithmetic of doubles on the special values, with the finite results passed
  through \<open>toDouble\<close>. A zero divisor is taken as positive zero.
\<close>

fun js_neg :: "jsnum \<Rightarrow> jsnum" where
  "js_neg NaN = NaN"
| "js_neg PosInf = NegInf"
| "js_neg NegInf = PosInf"
| "js_neg (Num a) = Num (- a)"

fun js_add :: "jsnum \<Rightarrow> jsnum \<Rightarrow> jsnum" where
  "js_add NaN b = NaN"
| "js_add a NaN = NaN"
| "js_add PosInf NegInf = NaN"
| "js_add NegInf PosInf = NaN"
| "js_add PosInf b = PosInf"
| "js_add a PosInf = PosInf"
| "js_add NegInf b = NegInf"
| "js_add a NegInf = NegInf"
| "js_add (Num a) (Num b) = toDouble (a + b)"

definition js_sub :: "jsnum \<Rightarrow> jsnum \<Rightarrow> jsnum" where
  "js_sub a b = js_add a (js_neg b)"

fun js_sign :: "jsnum \<Rightarrow> int" where
  "js_sign NaN = 0"
| "js_sign PosInf = 1"
| "js_sign NegInf = - 1"
| "js_sign (Num a) = (if 0 < a then 1 else if a < 0 then - 1 else 0)"

definition signedInf :: "int \<Rightarrow> jsnum" where
  "signedInf s = (if s = 0 then NaN else if 0 < s then PosInf else NegInf)"

fun js_mul :: "jsnum \<Rightarrow> jsnum \<Rightarrow> jsnum" where
  "js_mul NaN b = NaN"
| "js_mul a NaN = NaN"
| "js_mul (Num a) (Num b) = toDouble (a * b)"
| "js_mul a b = signedInf (js_sign a * js_sign b)"

fun js_div :: "jsnum \<Rightarrow> jsnum \<Rightarrow> jsnum" where
  "js_div NaN b = NaN"
| "js_div a NaN = NaN"
| "js_div (Num a) (Num b) = (if b = 0 then signedInf (js_sign (Num a)) else toDouble (a / b))"
| "js_div (Num a) b = Num 0"
| "js_div a (Num b) = signedInf (js_sign a * (if b < 0 then - 1 else 1))"
| "js_div a b = NaN"

text \<open>\<open>a === b\<close> on numbers: \<open>NaN\<close> equals nothing.\<close>

definition js_eq :: "jsnum \<Rightarrow> jsnum \<Rightarrow> bool" where
  "js_eq a b = (a \<noteq> NaN \<and> b \<noteq> NaN \<and> a = b)"

text \<open>
  The order in which MongoDB compares and sorts numbers: it is total, with \<open>NaN\<close>
  below every other number.
\<close>

fun mongo_le :: "jsnum \<Rightarrow> jsnum \<Rightarrow> bool" where
  "mongo_le NaN b = True"
| "mongo_le a NaN = False"
| "mongo_le NegInf b = True"
| "mongo_le a NegInf = False"
| "mongo_le a PosInf = True"
| "mongo_le PosInf b = False"
| "mongo_le (Num a) (Num b) = (a \<le> b)"

definition mongo_lt :: "jsnum \<Rightarrow> jsnum \<Rightarrow> bool" where
  "mongo_lt a b = (\<not> mongo_le b a)"

definition mongo_gt :: "jsnum \<Rightarrow> jsnum \<Rightarrow> bool" where
  "mongo_gt a b = (\<not> mongo_le a b)"

definition mongo_eq :: "jsnum \<Rightarrow> jsnum \<Rightarrow> bool" where
  "mongo_eq a b = (mongo_le a b \<and> mongo_le b a)"

subsection \<open>Sorting\<close>

text \<open>
  A sort stage orders the documents by a relation \<open>le\<close>. MongoDB leaves the order of
  documents with equal keys open; the model keeps them in the order they had.
\<close>

fun insertDoc :: "('a \<Rightarrow> 'a \<Rightarrow> bool) \<Rightarrow> 'a \<Rightarrow> 'a list \<Rightarrow> 'a list" where
  "insertDoc le x [] = [x]"
| "insertDoc le x (y # ys) = (if le x y then x # y # ys else y # insertDoc le x ys)"

definition sortDocs :: "('a \<Rightarrow> 'a \<Rightarrow> bool) \<Rightarrow> 'a list \<Rightarrow> 'a list" where
  "sortDocs le xs = foldr (insertDoc le) xs []"

subsection \<open>The virtual changePercent\<close>

definition changePercent :: "'a stockRow_scheme \<Rightarrow> jsnum" where
  "changePercent d =
     (if js_eq (change d) (Num 0) \<or> js_eq (close d) (Num 0) then Num 0
      else
        (let previousClose = js_sub (close d) (change d)
         in if js_eq previousClose (Num 0) then Num 0
            else js_mul (js_div (change d) previousClose) (Num 100)))"

text \<open>
  The formula the specification gives for the same value, for comparison:
  \<open>change / (close - change) * 100\<close>, and 0 when the denominator is 0.
\<close>

definition changePercentFormula :: "'a stockRow_scheme \<Rightarrow> jsnum" where
  "changePercentFormula d =
     (let denominator = js_sub (close d) (change d)
      in if js_eq denominator (Num 0) then Num 0
         else js_mul (js_div (change d) denominator) (Num 100))"

subsection \<open>findLatest\<close>

text \<open>
  The pipeline of \<open>findLatest\<close>: sort by \<open>symbol\<close> ascending and \<open>scrapedAt\<close>
  descending, group by \<open>symbol\<close> keeping the first document of each group, limit, sort
  by \<open>symbol\<close>. Strings compare by their characters' codes. The \<open>$group\<close> stage
  promises no order of its output: \<open>groupOrder\<close> is the order in which the server
  happens to emit the groups. A \<open>$limit\<close> that is not positive is refused by the server.
\<close>

definition bySymbolThenLatest :: "stockDoc \<Rightarrow> stockDoc \<Rightarrow> bool" where
  "bySymbolThenLatest a b =
     (symbol a < symbol b \<or> (symbol a = symbol b \<and> scrapedAt b \<le> scrapedAt a))"

definition bySymbol :: "stockDoc \<Rightarrow> stockDoc \<Rightarrow> bool" where
  "bySymbol a b = (symbol a \<le> symbol b)"

fun groupFirst :: "stockDoc list \<Rightarrow> stockDoc list" where
  "groupFirst [] = []"
| "groupFirst (d # ds) = d # groupFirst (filter (\<lambda>e. symbol e \<noteq> symbol d) ds)"

definition findLatest ::
  "(stockDoc list \<Rightarrow> stockDoc list) \<Rightarrow> int \<Rightarrow> stockDoc list \<Rightarrow> error + stockDoc list" where
  "findLatest groupOrder limit db =
     (if limit \<le> 0 then Inl MongoError
      else Inr (sortDocs bySymbol
                 (take (nat limit) (groupOrder (groupFirst (sortDocs bySymbolThenLatest db))))))"

subsection \<open>getMarketSummary\<close>

record summary =
  totalStocks :: nat
  totalVolume :: jsnum
  totalValue :: jsnum
  avgPrice :: jsnum
  gainers :: nat
  losers :: nat
  unchanged :: nat

definition latestFirst :: "stockDoc \<Rightarrow> stockDoc \<Rightarrow> bool" where
  "latestFirst a b = (scrapedAt b \<le> scrapedAt a)"

definition sumOf :: "jsnum list \<Rightarrow> jsnum" where
  "sumOf xs = foldl js_add (Num 0) xs"

text \<open>The \<open>$group\<close> stage with \<open>_id: null\<close>: one document, or none when no document comes in.\<close>

definition groupAll :: "stockDoc list \<Rightarrow> summary list" where
  "groupAll xs =
     (if xs = [] then []
      else [\<lparr> totalStocks = length xs,
              totalVolume = sumOf (map dailyVolume xs),
              totalValue = sumOf (map dailyValue xs),
              avgPrice = js_div (sumOf (map close xs)) (Num (of_nat (length xs))),
              gainers = length (filter (\<lambda>d. mongo_gt (change d) (Num 0)) xs),
              losers = length (filter (\<lambda>d. mongo_lt (change d) (Num 0)) xs),
              unchanged = length (filter (\<lambda>d. mongo_eq (change d) (Num 0)) xs) \<rparr>])"

text \<open>The \<open>$sort\<close> by \<open>scrapedAt\<close> descending and the \<open>$limit\<close> of 200.\<close>

definition recentRecords :: "stockDoc list \<Rightarrow> stockDoc list" where
  "recentRecords db = take 200 (sortDocs latestFirst db)"

definition getMarketSummary :: "stockDoc list \<Rightarrow> summary list" where
  "getMarketSummary db = groupAll (recentRecords db)"

subsection \<open>The routes\<close>

datatype 'a response = Ok 'a | NotFound | ServerError

text \<open>\<open>GET /summary\<close>: \<^verbatim>\<open>summary[0] || { totalStocks: 0, ... }\<close>.\<close>

definition zeroSummary :: summary where
  "zeroSummary =
     \<lparr> totalStocks = 0, totalVolume = Num 0, totalValue = Num 0, avgPrice = Num 0,
       gainers = 0, losers = 0, unchanged = 0 \<rparr>"

definition summaryRoute :: "stockDoc list \<Rightarrow> summary response" where
  "summaryRoute db = Ok (case getMarketSummary db of [] \<Rightarrow> zeroSummary | s # rest \<Rightarrow> s)"

text \<open>\<open>GET /latest\<close>, with the limit of the request as the integer it denotes.\<close>

definition latestRoute ::
  "(stockDoc list \<Rightarrow> stockDoc list) \<Rightarrow> int option \<Rightarrow> stockDoc list
     \<Rightarrow> (stockDoc list \<times> nat) response" where
  "latestRoute groupOrder limit db =
     (case findLatest groupOrder (case limit of None \<Rightarrow> 150 | Some l \<Rightarrow> l) db of
        Inl e \<Rightarrow> ServerError
      | Inr stocks \<Rightarrow> Ok (stocks, length stocks))"





text \<open>
  \<open>GET /\<close>. The query string gives \<open>page\<close> and \<open>limit\<close> as the integers they denote and
  the other parameters as text, each absent or present. The two built-ins the handler
  calls on that text are parameters: \<open>regExp p\<close> is the set of strings that
  \<^verbatim>\<open>new RegExp(p, 'i')\<close> matches, or \<open>None\<close> when the pattern is refused, and
  \<open>parseDate s\<close> is the time of \<^verbatim>\<open>new Date(s)\<close>, or \<open>None\<close> for an invalid date. A
  filter value that is \<open>NaN\<close> or an invalid date is refused when the query is cast.
  Of the answer, the documents and the page, limit and total of the pagination are
  kept; the number of pages, \<^verbatim>\<open>Math.ceil(total / limit)\<close>, is left out.
\<close>

record listRequest =
  page :: "int option"
  limit :: "int option"
  symbolParam :: "string option"
  securityNameParam :: "string option"
  sortBy :: "string option"
  sortOrder :: "string option"
  minClose :: "string option"
  maxClose :: "string option"
  startDate :: "string option"
  endDate :: "string option"









definition validSortFields :: "string list" where
  "validSortFields =
     [''symbol'', ''securityName'', ''open'', ''high'', ''low'', ''close'', ''change'',
      ''dailyVolume'', ''dailyValue'', ''scrapedAt'']"

definition sortFieldOf :: "string option \<Rightarrow> string" where
  "sortFieldOf sortByParam =
     (let sortBy = (case sortByParam of None \<Rightarrow> ''symbol'' | Some s \<Rightarrow> s)
      in if sortBy \<in> set validSortFields then sortBy else ''symbol'')"










section \<open>Example inputs\<close>

text \<open>
  A table of three rows whose second row has six cells, the objects with the time
  of a scrape added, and a clock.
\<close>

definition sampleRow1 :: "string list" where
  "sampleRow1 =
     [''mtn'', '' MTN Nigeria '', ''240.00'', ''245.5'', ''239'', ''244.00'', ''-0.50'',
      ''1,000'', ''244,000.00'']"

definition sampleRow2 :: "string list" where
  "sampleRow2 = [''Symbol'', ''Name'', ''Open'', ''High'', ''Low'', ''Close'']"

definition sampleRow3 :: "string list" where
  "sampleRow3 = [''Zenith'', ''Zenith Bank'', ''30'', ''31'', ''29.5'', ''30'', ''+1.50'', ''10'']"

definition sampleTable :: "string list list" where
  "sampleTable = [sampleRow1, sampleRow2, sampleRow3]"

definition sampleClock :: "nat \<Rightarrow> int" where
  "sampleClock i = 1000 + int i"

definition sampleInfo :: "string \<Rightarrow> rat \<Rightarrow> rat \<Rightarrow> int \<Rightarrow> stockInfo" where
  "sampleInfo s c ch t =
     \<lparr> symbol = s, securityName = s, openPrice = Num c, high = Num c, low = Num c,
       close = Num c, change = Num ch, dailyVolume = Num 10, dailyValue = Num 100,
       scrapedAt = t \<rparr>"

definition sampleDoc :: "string \<Rightarrow> rat \<Rightarrow> rat \<Rightarrow> int \<Rightarrow> nat \<Rightarrow> stockDoc" where
  "sampleDoc s c ch t n = newDoc (sampleInfo s c ch t) n"

definition sampleBatch :: "stockInfo list" where
  "sampleBatch = [sampleInfo ''mtn'' 244 (- (1 / 2)) 1000, sampleInfo ''zenith'' 30 (3 / 2) 1001]"

definition sampleStore :: "stockDoc list" where
  "sampleStore = fst (saveToMongoDB [] [] sampleBatch)"


text \<open>A collection with two documents of one symbol, as a history would have.\<close>

definition sampleHistory :: "stockDoc list" where
  "sampleHistory =
     [sampleDoc ''zenith'' 30 (3 / 2) 1001 0, sampleDoc ''mtn'' 244 (- (1 / 2)) 1000 1,
      sampleDoc ''mtn'' 250 0 2000 2]"

text \<open>Three documents with the changes +1, -1 and 0, two of them of one symbol.\<close>

definition sampleChanges :: "stockDoc list" where
  "sampleChanges =
     [sampleDoc ''mtn'' 10 1 1000 0, sampleDoc ''mtn'' 10 (- 1) 2000 1,
      sampleDoc ''zenith'' 10 0 3000 2]"


text \<open>A table with a row that is named like a route, and the collection one scrape makes of it.\<close>

definition sampleSummaryRow :: "string list" where
  "sampleSummaryRow = [''Summary'', ''Market summary'', ''1'', ''1'', ''1'', ''1'', ''0'', ''5'']"

definition sampleScraped :: "stockDoc list" where
  "sampleScraped =
     fst (scrapeStockData (Inr [sampleRow1, sampleSummaryRow, sampleRow3]) sampleClock [] [])"

section \<open>Properties of the normalizer\<close>

subsection \<open>parseNumber\<close>

lemma foldl_digits_bounds:
  fixes a :: int
  assumes "\<forall>c\<in>set ds. isDigit c" and "0 \<le> a"
  shows "0 \<le> foldl (\<lambda>v c. 10 * v + (of_char c - 48)) a ds \<and>
         foldl (\<lambda>v c. 10 * v + (of_char c - 48)) a ds < (a + 1) * 10 ^ length ds"
  using assms
proof (induction ds arbitrary: a)
  case Nil
  then show ?case by simp
next
  case (Cons c ds)
  have "isDigit c" using Cons.prems by simp
  then have d: "0 \<le> (of_char c :: int) - 48 \<and> (of_char c :: int) - 48 \<le> 9"
    by (auto simp: isDigit_def)
  let ?a = "10 * a + (of_char c - 48)"
  have "0 \<le> ?a" using d Cons.prems by simp
  moreover have "\<forall>c\<in>set ds. isDigit c" using Cons.prems by simp
  ultimately have ih: "0 \<le> foldl (\<lambda>v c. 10 * v + (of_char c - 48)) ?a ds \<and>
      foldl (\<lambda>v c. 10 * v + (of_char c - 48)) ?a ds < (?a + 1) * 10 ^ length ds"
    using Cons.IH by blast
  have "?a + 1 \<le> (a + 1) * 10" using d by simp
  then have "(?a + 1) * 10 ^ length ds \<le> ((a + 1) * 10) * 10 ^ length ds"
    by (intro mult_right_mono) auto
  also have "\<dots> = (a + 1) * 10 ^ length (c # ds)" by simp
  finally have "(?a + 1) * 10 ^ length ds \<le> (a + 1) * 10 ^ length (c # ds)" .
  with ih have "foldl (\<lambda>v c. 10 * v + (of_char c - 48)) ?a ds < (a + 1) * 10 ^ length (c # ds)"
    by linarith
  with ih show ?case by simp
qed

lemma digitsVal_bounds:
  "\<forall>c\<in>set ds. isDigit c \<Longrightarrow> 0 \<le> digitsVal ds \<and> digitsVal ds < 10 ^ length ds"
  using foldl_digits_bounds [of ds 0] by (simp add: digitsVal_def)

lemma toDouble_finite: "\<bar>v\<bar> < dblLimit \<Longrightarrow> isFinite (toDouble v)"
  by (auto simp: toDouble_def isFinite_def)

lemma pow308_limit: "(10::rat) ^ 308 < dblLimit"
  by (simp add: dblLimit_def)

lemma exponentPart_numeric: "\<forall>c\<in>set r. numericChar c \<Longrightarrow> exponentPart r = 0"
proof (cases r)
  case Nil
  then show ?thesis by (simp add: exponentPart_def)
next
  case (Cons c cs)
  assume "\<forall>c\<in>set r. numericChar c"
  then have "numericChar c" using Cons by simp
  then have "c \<noteq> CHR ''e'' \<and> c \<noteq> CHR ''E''"
    by (auto simp: numericChar_def isDigit_def)
  then show ?thesis using Cons by (simp add: exponentPart_def)
qed

lemma parseFloat_numeric_finite:
  assumes num: "\<forall>c\<in>set s. numericChar c" and len: "length s \<le> 308"
  shows "parseFloat s = NaN \<or> isFinite (parseFloat s)"
proof -
  define t where "t = dropWhile isSpace s"
  define u where "u = (if t \<noteq> [] \<and> (hd t = CHR ''-'' \<or> hd t = CHR ''+'') then tl t else t)"
  define ip where "ip = takeWhile isDigit u"
  define r1 where "r1 = dropWhile isDigit u"
  define dot where "dot = (r1 \<noteq> [] \<and> hd r1 = CHR ''.'')"
  define fp where "fp = (if dot then takeWhile isDigit (tl r1) else [])"
  define r2 where "r2 = (if dot then dropWhile isDigit (tl r1) else r1)"
  define m :: rat where "m = of_int (digitsVal ip) + of_int (digitsVal fp) / 10 ^ length fp"
  have t_sub: "set t \<subseteq> set s" and t_len: "length t \<le> length s"
    unfolding t_def by (auto dest: set_dropWhileD simp: length_dropWhile_le)
  have u_sub: "set u \<subseteq> set t" and u_len: "length u \<le> length t"
    unfolding u_def by (auto dest: list.set_sel(2))
  have u_num: "\<forall>c\<in>set u. numericChar c" using num t_sub u_sub by blast
  have noInf: "take 8 u \<noteq> ''Infinity''"
  proof
    assume "take 8 u = ''Infinity''"
    then have "CHR ''I'' \<in> set (take 8 u)" by simp
    then have "CHR ''I'' \<in> set u" by (rule in_set_takeD)
    then have "numericChar CHR ''I''" using u_num by blast
    then show False by (simp add: numericChar_def isDigit_def)
  qed
  have r1_sub: "set r1 \<subseteq> set u" unfolding r1_def by (auto dest: set_dropWhileD)
  have "set r2 \<subseteq> set r1"
    unfolding r2_def dot_def by (auto dest!: set_dropWhileD dest: list.set_sel(2))
  then have "\<forall>c\<in>set r2. numericChar c" using r1_sub u_num by blast
  then have e0: "exponentPart r2 = 0" by (rule exponentPart_numeric)
  have ip_dig: "\<forall>c\<in>set ip. isDigit c" unfolding ip_def by (auto dest: set_takeWhileD)
  have fp_dig: "\<forall>c\<in>set fp. isDigit c" unfolding fp_def by (auto dest: set_takeWhileD)
  have ip_len: "length ip \<le> 308"
    using length_takeWhile_le [of isDigit u] u_len t_len len unfolding ip_def by linarith
  have ipb: "0 \<le> digitsVal ip \<and> digitsVal ip + 1 \<le> 10 ^ length ip"
    using digitsVal_bounds [OF ip_dig] by simp
  have fpb: "0 \<le> digitsVal fp \<and> digitsVal fp < 10 ^ length fp"
    using digitsVal_bounds [OF fp_dig] by simp
  have frac: "0 \<le> (of_int (digitsVal fp) :: rat) / 10 ^ length fp
              \<and> (of_int (digitsVal fp) :: rat) / 10 ^ length fp < 1"
  proof -
    have "(of_int (digitsVal fp) :: rat) < of_int (10 ^ length fp)"
      using fpb by (simp only: of_int_less_iff)
    then have "(of_int (digitsVal fp) :: rat) < 10 ^ length fp" by simp
    moreover have "(0::rat) \<le> of_int (digitsVal fp)" using fpb by simp
    ultimately show ?thesis by simp
  qed
  have "(of_int (digitsVal ip + 1) :: rat) \<le> of_int (10 ^ length ip)"
    using ipb by (simp only: of_int_le_iff)
  then have ipr: "(of_int (digitsVal ip) :: rat) + 1 \<le> 10 ^ length ip" by simp
  have ip0: "(0::rat) \<le> of_int (digitsVal ip)" using ipb by simp
  have pw: "(10::rat) ^ length ip \<le> 10 ^ 308"
    using ip_len by (intro power_increasing) auto
  have "0 \<le> m" unfolding m_def using ip0 frac by linarith
  moreover have "m < 10 ^ length ip" unfolding m_def using ipr frac by linarith
  then have "m < dblLimit" using pw pow308_limit by linarith
  ultimately have mb: "0 \<le> m \<and> m < dblLimit" by simp
  then have "\<bar>m\<bar> < dblLimit \<and> \<bar>- m\<bar> < dblLimit" by simp
  then have fin: "isFinite (toDouble m) \<and> isFinite (toDouble (- m))"
    using toDouble_finite by blast
  have "parseFloat s = (if ip = [] \<and> fp = [] then NaN
        else toDouble (if t \<noteq> [] \<and> hd t = CHR ''-'' then - m else m))"
    using noInf e0
    unfolding parseFloat_def Let_def t_def [symmetric] u_def [symmetric] ip_def [symmetric]
      r1_def [symmetric] dot_def [symmetric] fp_def [symmetric] r2_def [symmetric]
    by (simp add: m_def pow10_def)
  then show ?thesis using fin by auto
qed

lemma parseNumber_not_NaN: "parseNumber str \<noteq> NaN"
  by (simp add: parseNumber_def orZero_def split: option.splits)

lemma parseNumber_short_finite:
  assumes "length s \<le> 308"
  shows "isFinite (parseNumber (Some s))"
proof -
  let ?c = "filter numericChar s"
  have "\<forall>c\<in>set ?c. numericChar c" by simp
  moreover have "length ?c \<le> 308" using assms length_filter_le [of numericChar s] by linarith
  ultimately have "parseFloat ?c = NaN \<or> isFinite (parseFloat ?c)"
    by (rule parseFloat_numeric_finite)
  then have "isFinite (orZero (parseFloat ?c))"
    by (auto simp: orZero_def isFinite_def)
  then show ?thesis by (simp add: parseNumber_def isFinite_def)
qed

lemma foldl_digits_zeros:
  fixes a :: int
  shows "foldl (\<lambda>v c. 10 * v + (of_char c - 48)) a (replicate n CHR ''0'') = a * 10 ^ n"
  by (induction n arbitrary: a) simp_all

lemma parseFloat_one_zeros:
  "parseFloat (CHR ''1'' # replicate n CHR ''0'') = toDouble (10 ^ n)"
proof -
  have d1: "isDigit CHR ''1''" and d0: "isDigit CHR ''0''" and s1: "\<not> isSpace CHR ''1''"
    by (simp_all add: isDigit_def isSpace_def)
  have v: "digitsVal (CHR ''1'' # replicate n CHR ''0'') = 10 ^ n"
    using foldl_digits_zeros [of 1 n] by (simp add: digitsVal_def)
  have e: "digitsVal [] = 0" by (simp add: digitsVal_def)
  show ?thesis
    unfolding parseFloat_def Let_def
    by (simp add: d1 d0 s1 v e exponentPart_def pow10_def)
qed

lemma parseNumber_one_zeros:
  "parseNumber (Some (CHR ''1'' # replicate n CHR ''0'')) = orZero (toDouble (10 ^ n))"
proof -
  have "filter numericChar (CHR ''1'' # replicate n CHR ''0'') = CHR ''1'' # replicate n CHR ''0''"
    by (simp add: numericChar_def isDigit_def)
  then show ?thesis
    by (simp add: parseNumber_def parseFloat_one_zeros)
qed

lemma parseNumber_unparseable:
  "parseFloat (filter numericChar s) = NaN \<Longrightarrow> parseNumber (Some s) = Num 0"
  by (simp add: parseNumber_def orZero_def)

lemmas parse_defs =
  parseNumber_def parseFloat_def numericChar_def isDigit_def isSpace_def orZero_def
  toDouble_def dblLimit_def dblTiny_def digitsVal_def pow10_def exponentPart_def Let_def

text \<open>
  C7, as the code has it. \<open>parseNumber\<close> returns a number on every argument, a string
  or \<open>undefined\<close>, and never \<open>NaN\<close>; the number is finite whenever the text has at most
  308 characters (a longer run of digits can exceed the range of a double, and is then
  an infinity); text in which \<open>parseFloat\<close> finds no number gives 0; and
  \<open>undefined\<close>, \<open>''\<close>, \<open>'-'\<close> and \<open>'N/A'\<close> give 0, \<open>'1,234.50'\<close> gives 1234.5.
\<close>

theorem parseNumber_total:
  "parseNumber str \<noteq> NaN \<and>
   (length s \<le> 308 \<longrightarrow> isFinite (parseNumber (Some s))) \<and>
   (parseFloat (filter numericChar t) = NaN \<longrightarrow> parseNumber (Some t) = Num 0) \<and>
   parseNumber None = Num 0 \<and>
   parseNumber (Some []) = Num 0 \<and>
   parseNumber (Some ''-'') = Num 0 \<and>
   parseNumber (Some ''N/A'') = Num 0 \<and>
   parseNumber (Some ''1,234.50'') = Num (2469 / 2)"
proof -
  have "parseNumber (Some ''1,234.50'') = Num (2469 / 2)"
    by (simp add: parse_defs)
  moreover have "parseNumber None = Num 0" "parseNumber (Some []) = Num 0"
    "parseNumber (Some ''-'') = Num 0" "parseNumber (Some ''N/A'') = Num 0"
    by (simp_all add: parseNumber_def)
  ultimately show ?thesis
    using parseNumber_not_NaN parseNumber_short_finite parseNumber_unparseable by blast
qed

theorem parseNumber_total_witness:
  "length ''1,234.50'' \<le> 308 \<and> isFinite (parseNumber (Some ''1,234.50'')) \<and>
   parseFloat (filter numericChar ''n.a.'') = NaN \<and> parseNumber (Some ''n.a.'') = Num 0"
proof -
  have a: "length ''1,234.50'' \<le> 308" by simp
  have b: "parseFloat (filter numericChar ''n.a.'') = NaN"
    by (simp add: parse_defs)
  show ?thesis
    using a b parseNumber_total [of None "''1,234.50''" "''n.a.''"] by blast
qed

text \<open>
  C7 as stated fails: a 1 followed by 309 zeros is a string on which \<open>parseNumber\<close>
  returns \<open>Infinity\<close>, which is not a finite number.
\<close>

theorem parseNumber_finite_counterexample:
  "\<not> isFinite (parseNumber (Some (CHR ''1'' # replicate 309 CHR ''0'')))"
proof -
  have "dblLimit \<le> 10 ^ 309" by (simp add: dblLimit_def)
  then have "toDouble (10 ^ 309) = PosInf" by (simp add: toDouble_def)
  then show ?thesis
    by (simp add: parseNumber_one_zeros orZero_def isFinite_def)
qed

subsection \<open>Strings and setters\<close>

lemma upperChar_idem: "upperChar (upperChar c) = upperChar c"
  by (simp add: upperChar_def)

lemma isSpace_upperChar: "isSpace (upperChar c) = isSpace c"
  by (simp add: upperChar_def isSpace_def)

lemma toUpperCase_idem: "toUpperCase (toUpperCase s) = toUpperCase s"
  by (simp add: toUpperCase_def upperChar_idem)

lemma dropWhile_isSpace_upper:
  "dropWhile isSpace (toUpperCase s) = toUpperCase (dropWhile isSpace s)"
proof -
  have "isSpace \<circ> upperChar = isSpace" by (rule ext) (simp add: isSpace_upperChar)
  then show ?thesis by (simp add: toUpperCase_def dropWhile_map)
qed

lemma trim_toUpperCase: "trim (toUpperCase s) = toUpperCase (trim s)"
proof -
  have r: "rev (toUpperCase xs) = toUpperCase (rev xs)" for xs
    by (simp add: toUpperCase_def rev_map)
  show ?thesis
    unfolding trim_def by (simp only: dropWhile_isSpace_upper r)
qed

lemma trim_idem: "trim (trim s) = trim s"
proof -
  define y where "y = dropWhile isSpace s"
  define z where "z = dropWhile isSpace (rev y)"
  have t: "trim s = rev z" by (simp add: trim_def y_def z_def)
  have "dropWhile isSpace (rev z) = rev z"
  proof (cases "z = []")
    case True
    then show ?thesis by simp
  next
    case False
    then have ry: "rev y \<noteq> []" unfolding z_def by auto
    then have yne: "y \<noteq> []" by simp
    then have hy: "\<not> isSpace (hd y)" unfolding y_def by (rule hd_dropWhile)
    have "hd y = last (rev y)" using yne by (simp add: last_rev)
    then have n: "\<not> isSpace (last (rev y))" using hy by simp
    have m: "last (rev y) \<in> set (rev y)" using ry by (rule last_in_set)
    have "last z = last (rev y)" unfolding z_def using m n by (rule dropWhile_last)
    then have "\<not> isSpace (hd (rev z))" using n by (simp add: hd_rev)
    then show ?thesis by (simp add: dropWhile_eq_self_iff)
  qed
  moreover have "dropWhile isSpace z = z" unfolding z_def by (rule dropWhile_idem)
  ultimately have "trim (rev z) = rev z" by (simp add: trim_def)
  then show ?thesis by (simp add: t)
qed

lemma symbolSetter_idem: "symbolSetter (symbolSetter s) = symbolSetter s"
  by (simp add: symbolSetter_def trim_toUpperCase toUpperCase_idem trim_idem)

lemma toUpperCase_symbolSetter: "toUpperCase (symbolSetter s) = symbolSetter s"
  by (simp add: symbolSetter_def trim_toUpperCase toUpperCase_idem)

lemma cleanSymbol_chars: "c \<in> set (cleanSymbol str) \<Longrightarrow> isUpper c \<or> isDigit c"
proof -
  have "isAlnum a \<Longrightarrow> isUpper (upperChar a) \<or> isDigit (upperChar a)" for a
    unfolding isAlnum_def isUpper_def isLower_def isDigit_def upperChar_def by auto
  then show "c \<in> set (cleanSymbol str) \<Longrightarrow> isUpper c \<or> isDigit c"
    by (auto simp: cleanSymbol_def toUpperCase_def)
qed

subsection \<open>The store\<close>

lemma symbol_setFields [simp]: "symbol (setFields u d) = symbolSetter (symbol u)"
  by (simp add: setFields_def)

lemma oid_setFields [simp]: "oid (setFields u d) = oid d"
  by (simp add: setFields_def)

lemma scrapedAt_setFields [simp]: "scrapedAt (setFields u d) = scrapedAt u"
  by (simp add: setFields_def)

lemma symbol_newDoc [simp]: "symbol (newDoc u n) = symbolSetter (symbol u)"
  by (simp add: newDoc_def)

lemma setFields_eq_newDoc: "setFields u d = newDoc u (oid d)"
  by (simp add: setFields_def newDoc_def)

lemma map_replaceFirst:
  "(\<And>d. d \<in> set db \<Longrightarrow> P d \<Longrightarrow> g (f d) = g d) \<Longrightarrow> map g (replaceFirst P f db) = map g db"
  by (induction db) simp_all

lemma length_replaceFirst [simp]: "length (replaceFirst P f db) = length db"
  by (induction db) simp_all

lemma set_replaceFirst: "set (replaceFirst P f db) \<subseteq> set db \<union> f ` {d \<in> set db. P d}"
  by (induction db) auto

lemma replaceFirst_index:
  "i < length db \<Longrightarrow> P (db ! i) \<Longrightarrow> (\<forall>j<i. \<not> P (db ! j))
     \<Longrightarrow> replaceFirst P f db = db[i := f (db ! i)]"
proof (induction db arbitrary: i)
  case Nil
  then show ?case by simp
next
  case (Cons d ds)
  show ?case
  proof (cases i)
    case 0
    then show ?thesis using Cons.prems by simp
  next
    case (Suc k)
    have "\<not> P d" using Cons.prems(3) Suc by auto
    moreover have "replaceFirst P f ds = ds[k := f (ds ! k)]"
      using Cons.prems Suc by (intro Cons.IH) auto
    ultimately show ?thesis using Suc by simp
  qed
qed

lemma oid_less_freshId: "d \<in> set db \<Longrightarrow> oid d < freshId db"
  by (induction db) (auto simp: freshId_def)

lemma find_Some_mem: "find P xs = Some x \<Longrightarrow> x \<in> set xs \<and> P x"
  by (induction xs) (auto split: if_splits)

text \<open>What one upsert does to the collection, told by the symbols alone.\<close>

lemma findOneAndUpdate_present:
  assumes "find (\<lambda>d. symbol d = symbolSetter symb) db = Some d"
  shows "findOneAndUpdate False db symb u =
           Inr (replaceFirst (\<lambda>d. symbol d = symbolSetter symb) (setFields u) db, setFields u d)"
  using assms by (simp add: findOneAndUpdate_def)

lemma findOneAndUpdate_absent:
  assumes "find (\<lambda>d. symbol d = symbolSetter symb) db = None"
  shows "findOneAndUpdate False db symb u =
           Inr (db @ [newDoc u (freshId db)], newDoc u (freshId db))"
  using assms by (simp add: findOneAndUpdate_def Let_def)

lemma findOneAndUpdate_fault: "findOneAndUpdate True db symb u = Inl MongoError"
  by (simp add: findOneAndUpdate_def)

lemma findOneAndUpdate_succeeds:
  "\<exists>db' stock. findOneAndUpdate False db symb u = Inr (db', stock)"
  by (cases "find (\<lambda>d. symbol d = symbolSetter symb) db")
     (simp_all add: findOneAndUpdate_present findOneAndUpdate_absent)

lemma findOneAndUpdate_symbols:
  assumes "findOneAndUpdate False db (symbol u) u = Inr (db', stock)"
  shows "symbol stock = symbolSetter (symbol u) \<and>
         map symbol db' =
           (if symbolSetter (symbol u) \<in> symbol ` set db then map symbol db
            else map symbol db @ [symbolSetter (symbol u)])"
proof (cases "find (\<lambda>d. symbol d = symbolSetter (symbol u)) db")
  case None
  then have "symbolSetter (symbol u) \<notin> symbol ` set db"
    by (auto simp: find_None_iff)
  then show ?thesis
    using assms None by (auto simp: findOneAndUpdate_absent)
next
  case (Some d)
  then have "d \<in> set db" and "symbol d = symbolSetter (symbol u)"
    by (auto dest!: find_Some_mem)
  then have "symbolSetter (symbol u) \<in> symbol ` set db"
    by (metis imageI)
  moreover have "map symbol (replaceFirst (\<lambda>d. symbol d = symbolSetter (symbol u)) (setFields u) db)
      = map symbol db"
    by (rule map_replaceFirst) simp
  ultimately show ?thesis
    using assms Some by (auto simp: findOneAndUpdate_present)
qed

lemma saveLoop_step:
  assumes "\<not> (faults \<noteq> [] \<and> hd faults)"
    and "findOneAndUpdate False db (symbol x) x = Inr (db', stock)"
  shows "saveLoop faults db (x # xs) saved = saveLoop (tl faults) db' xs (saved @ [stock])"
proof -
  have "(faults \<noteq> [] \<and> hd faults) = False" using assms(1) by blast
  then show ?thesis using assms(2) by (simp only: saveLoop.simps sum.case prod.case)
qed

lemma saveLoop_fault:
  assumes "faults \<noteq> [] \<and> hd faults"
  shows "saveLoop faults db (x # xs) saved = (db, Inl MongoError)"
proof -
  have "(faults \<noteq> [] \<and> hd faults) = True" using assms by blast
  then show ?thesis by (simp only: saveLoop.simps findOneAndUpdate_fault sum.case)
qed

lemma findOneAndUpdate_invariant:
  assumes step: "findOneAndUpdate False db (symbol u) u = Inr (db', stock)"
    and norm: "\<forall>s\<in>set (map symbol db). symbolSetter s = s"
    and dist: "distinct (map symbol db)"
  shows "(\<forall>s\<in>set (map symbol db'). symbolSetter s = s) \<and> distinct (map symbol db')"
proof -
  have m: "map symbol db' =
           (if symbolSetter (symbol u) \<in> symbol ` set db then map symbol db
            else map symbol db @ [symbolSetter (symbol u)])"
    using findOneAndUpdate_symbols [OF step] by simp
  show ?thesis
  proof (cases "symbolSetter (symbol u) \<in> symbol ` set db")
    case True
    then show ?thesis using m norm dist by simp
  next
    case False
    then have "map symbol db' = map symbol db @ [symbolSetter (symbol u)]" using m by simp
    then show ?thesis using False norm dist by (auto simp: symbolSetter_idem)
  qed
qed

lemma saveLoop_invariant:
  assumes "\<forall>s\<in>set (map symbol db). symbolSetter s = s" and "distinct (map symbol db)"
  shows "(\<forall>s\<in>set (map symbol (fst (saveLoop faults db xs saved))). symbolSetter s = s) \<and>
         distinct (map symbol (fst (saveLoop faults db xs saved)))"
  using assms
proof (induction xs arbitrary: faults db saved)
  case Nil
  then show ?case by simp
next
  case (Cons x xs)
  show ?case
  proof (cases "faults \<noteq> [] \<and> hd faults")
    case True
    then have "saveLoop faults db (x # xs) saved = (db, Inl MongoError)" by (rule saveLoop_fault)
    then show ?thesis using Cons.prems by simp
  next
    case False
    obtain db' stock where step: "findOneAndUpdate False db (symbol x) x = Inr (db', stock)"
      using findOneAndUpdate_succeeds by blast
    have inv: "(\<forall>s\<in>set (map symbol db'). symbolSetter s = s) \<and> distinct (map symbol db')"
      using findOneAndUpdate_invariant [OF step Cons.prems] .
    have "saveLoop faults db (x # xs) saved = saveLoop (tl faults) db' xs (saved @ [stock])"
      using False step by (rule saveLoop_step)
    then show ?thesis using Cons.IH [of db' "tl faults" "saved @ [stock]"] inv by simp
  qed
qed

lemma saveToMongoDB_invariant:
  assumes "\<forall>s\<in>set (map symbol db). symbolSetter s = s" and "distinct (map symbol db)"
  shows "(\<forall>s\<in>set (map symbol (fst (saveToMongoDB faults db xs))). symbolSetter s = s) \<and>
         distinct (map symbol (fst (saveToMongoDB faults db xs)))"
proof (cases "xs = []")
  case True
  then show ?thesis using assms by (simp add: saveToMongoDB_def)
next
  case False
  then show ?thesis
    using saveLoop_invariant [OF assms, of faults xs "[]"] by (simp add: saveToMongoDB_def)
qed

lemma reachable_invariant:
  "reachable db \<Longrightarrow>
     (\<forall>s\<in>set (map symbol db). symbolSetter s = s) \<and> distinct (map symbol db)"
proof (induction rule: reachable.induct)
  case initial
  then show ?case by simp
next
  case (saved db faults stockData)
  then show ?case using saveToMongoDB_invariant [of db faults stockData] by blast
qed



subsection \<open>The extractor\<close>

lemma pushRows_eq:
  "pushRows stocks rows = stocks @ map rowStock (filter (\<lambda>cells. 8 \<le> length cells) rows)"
  by (induction rows arbitrary: stocks) simp_all

lemma extractStocks_eq:
  "extractStocks rows =
     filter validStock (map rowStock (filter (\<lambda>cells. 8 \<le> length cells) rows))"
  by (simp add: extractStocks_def pushRows_eq)

lemmas clean_defs =
  cleanSymbol_def cleanText_def orEmpty_def isAlnum_def isUpper_def isLower_def isDigit_def
  toUpperCase_def upperChar_def trim_def isSpace_def

lemma sampleRow1_stock:
  "rowStock sampleRow1 =
     \<lparr> symbol = ''MTN'', securityName = ''MTN Nigeria'', openPrice = Num 240,
       high = Num (491 / 2), low = Num 239, close = Num 244, change = Num (- (1 / 2)),
       dailyVolume = Num 1000, dailyValue = Num 244000 \<rparr>"
  by (simp add: rowStock_def sampleRow1_def ninthCell_def clean_defs parse_defs)

lemma sampleRow3_stock:
  "rowStock sampleRow3 =
     \<lparr> symbol = ''ZENITH'', securityName = ''Zenith Bank'', openPrice = Num 30,
       high = Num 31, low = Num (59 / 2), close = Num 30, change = Num (3 / 2),
       dailyVolume = Num 10, dailyValue = Num 0 \<rparr>"
  by (simp add: rowStock_def sampleRow3_def ninthCell_def clean_defs parse_defs)

lemma sample_lengths:
  "length sampleRow1 = 9" "length sampleRow2 = 6" "length sampleRow3 = 8"
  by (simp_all add: sampleRow1_def sampleRow2_def sampleRow3_def)

lemma sample_valid: "validStock (rowStock sampleRow1)" "validStock (rowStock sampleRow3)"
  by (simp_all add: validStock_def sampleRow1_stock sampleRow3_stock)

text \<open>
  C8. For every table the extractor builds an object for exactly the rows of at
  least 8 cells, in row order, and \<open>rowStock\<close> reads the cells 0 to 8 by position:
  symbol, securityName, open, high, low, close, change, dailyVolume, dailyValue, the
  last one parsed from \<open>'0'\<close> when there is no ninth cell. A row of fewer than 8 cells
  leaves no trace: with a second row of 6 cells between two rows of at least 8 cells,
  two objects are built, and when both pass the filter they are the output.
\<close>

theorem extractor_maps_rows:
  "pushRows [] rows = map rowStock (filter (\<lambda>cells. 8 \<le> length cells) rows) \<and>
   (s \<in> set (extractStocks rows) \<longrightarrow> s \<in> rowStock ` {cells \<in> set rows. 8 \<le> length cells}) \<and>
   symbol (rowStock cells) = cleanSymbol (Some (cells ! 0)) \<and>
   securityName (rowStock cells) = cleanText (Some (cells ! 1)) \<and>
   openPrice (rowStock cells) = parseNumber (Some (cells ! 2)) \<and>
   high (rowStock cells) = parseNumber (Some (cells ! 3)) \<and>
   low (rowStock cells) = parseNumber (Some (cells ! 4)) \<and>
   close (rowStock cells) = parseNumber (Some (cells ! 5)) \<and>
   change (rowStock cells) = parseNumber (Some (cells ! 6)) \<and>
   dailyVolume (rowStock cells) = parseNumber (Some (cells ! 7)) \<and>
   (8 < length cells \<and> cells ! 8 \<noteq> [] \<longrightarrow>
      dailyValue (rowStock cells) = parseNumber (Some (cells ! 8))) \<and>
   (length cells \<le> 8 \<longrightarrow> dailyValue (rowStock cells) = parseNumber (Some ''0'')) \<and>
   (length r2 < 8 \<longrightarrow> extractStocks [r1, r2, r3] = extractStocks [r1, r3]) \<and>
   (8 \<le> length r1 \<and> length r2 = 6 \<and> 8 \<le> length r3 \<longrightarrow>
      length (pushRows [] [r1, r2, r3]) = 2) \<and>
   (8 \<le> length r1 \<and> validStock (rowStock r1) \<and> length r2 = 6 \<and>
    8 \<le> length r3 \<and> validStock (rowStock r3) \<longrightarrow>
      extractStocks [r1, r2, r3] = [rowStock r1, rowStock r3])"
proof -
  have built: "pushRows [] rows = map rowStock (filter (\<lambda>cells. 8 \<le> length cells) rows)"
    by (simp add: pushRows_eq)
  have from_row:
    "s \<in> set (extractStocks rows) \<longrightarrow> s \<in> rowStock ` {cells \<in> set rows. 8 \<le> length cells}"
    by (auto simp: extractStocks_eq)
  have fields:
    "symbol (rowStock cells) = cleanSymbol (Some (cells ! 0))"
    "securityName (rowStock cells) = cleanText (Some (cells ! 1))"
    "openPrice (rowStock cells) = parseNumber (Some (cells ! 2))"
    "high (rowStock cells) = parseNumber (Some (cells ! 3))"
    "low (rowStock cells) = parseNumber (Some (cells ! 4))"
    "close (rowStock cells) = parseNumber (Some (cells ! 5))"
    "change (rowStock cells) = parseNumber (Some (cells ! 6))"
    "dailyVolume (rowStock cells) = parseNumber (Some (cells ! 7))"
    by (simp_all add: rowStock_def)
  have ninth:
    "8 < length cells \<and> cells ! 8 \<noteq> [] \<longrightarrow>
       dailyValue (rowStock cells) = parseNumber (Some (cells ! 8))"
    "length cells \<le> 8 \<longrightarrow> dailyValue (rowStock cells) = parseNumber (Some ''0'')"
    by (simp_all add: rowStock_def ninthCell_def)
  have dropped: "length r2 < 8 \<longrightarrow> extractStocks [r1, r2, r3] = extractStocks [r1, r3]"
    by (simp add: extractStocks_eq)
  have two: "8 \<le> length r1 \<and> length r2 = 6 \<and> 8 \<le> length r3 \<longrightarrow>
      length (pushRows [] [r1, r2, r3]) = 2"
    by (simp add: pushRows_eq)
  have out: "8 \<le> length r1 \<and> validStock (rowStock r1) \<and> length r2 = 6 \<and>
      8 \<le> length r3 \<and> validStock (rowStock r3) \<longrightarrow>
      extractStocks [r1, r2, r3] = [rowStock r1, rowStock r3]"
    by (simp add: extractStocks_eq)
  show ?thesis
    using built from_row fields ninth dropped two out by blast
qed

theorem extractor_maps_rows_witness:
  "rowStock sampleRow1 \<in> set (extractStocks sampleTable) \<and>
   rowStock sampleRow1 \<in> rowStock ` {cells \<in> set sampleTable. 8 \<le> length cells} \<and>
   8 < length sampleRow1 \<and> sampleRow1 ! 8 \<noteq> [] \<and>
   dailyValue (rowStock sampleRow1) = parseNumber (Some (sampleRow1 ! 8)) \<and>
   length sampleRow3 \<le> 8 \<and> dailyValue (rowStock sampleRow3) = parseNumber (Some ''0'') \<and>
   length sampleRow2 < 8 \<and>
   extractStocks [sampleRow1, sampleRow2, sampleRow3] = extractStocks [sampleRow1, sampleRow3] \<and>
   8 \<le> length sampleRow1 \<and> length sampleRow2 = 6 \<and> 8 \<le> length sampleRow3 \<and>
   length (pushRows [] [sampleRow1, sampleRow2, sampleRow3]) = 2 \<and>
   validStock (rowStock sampleRow1) \<and> validStock (rowStock sampleRow3) \<and>
   extractStocks [sampleRow1, sampleRow2, sampleRow3] = [rowStock sampleRow1, rowStock sampleRow3]"
proof -
  note t = extractor_maps_rows [of sampleTable "rowStock sampleRow1" sampleRow1
      sampleRow2 sampleRow1 sampleRow3]
  note u = extractor_maps_rows [of sampleTable "rowStock sampleRow1" sampleRow3
      sampleRow2 sampleRow1 sampleRow3]
  have ninth: "sampleRow1 ! 8 \<noteq> []" by (simp add: sampleRow1_def)
  have l: "8 \<le> length sampleRow1" "8 < length sampleRow1" "length sampleRow2 = 6"
    "length sampleRow2 < 8" "8 \<le> length sampleRow3" "length sampleRow3 \<le> 8"
    using sample_lengths by simp_all
  have out: "extractStocks [sampleRow1, sampleRow2, sampleRow3] = [rowStock sampleRow1, rowStock sampleRow3]"
    using t l sample_valid by blast
  then have mem: "rowStock sampleRow1 \<in> set (extractStocks sampleTable)"
    by (simp add: sampleTable_def)
  show ?thesis
    using t u mem ninth l sample_valid by blast
qed

text \<open>
  C2. Every object the extraction step returns has a symbol that is not empty and
  consists of the characters A to Z and 0 to 9, and a close above 0; an object with an
  empty symbol, or with a close that is not above 0, is not in the output. Every
  document of a collection the program has written has a symbol that upper-casing
  leaves unchanged.
\<close>

theorem extraction_filter:
  "(s \<in> set (extractStocks rows) \<longrightarrow>
      symbol s \<noteq> [] \<and> (\<forall>c\<in>set (symbol s). isUpper c \<or> isDigit c) \<and>
      js_gt (close s) (Num 0)) \<and>
   (symbol x = [] \<or> \<not> js_gt (close x) (Num 0) \<longrightarrow> x \<notin> set (extractStocks rows)) \<and>
   (reachable db \<and> d \<in> set db \<longrightarrow> toUpperCase (symbol d) = symbol d)"
proof -
  have kept: "s \<in> set (extractStocks rows) \<longrightarrow>
      symbol s \<noteq> [] \<and> (\<forall>c\<in>set (symbol s). isUpper c \<or> isDigit c) \<and>
      js_gt (close s) (Num 0)"
  proof
    assume "s \<in> set (extractStocks rows)"
    then have v: "validStock s" and "s \<in> set (pushRows [] rows)"
      by (simp_all add: extractStocks_def)
    then obtain cells where "s = rowStock cells" by (auto simp: pushRows_eq)
    then have "symbol s = cleanSymbol (Some (cells ! 0))" by (simp add: rowStock_def)
    then have "\<forall>c\<in>set (symbol s). isUpper c \<or> isDigit c"
      using cleanSymbol_chars by simp
    then show "symbol s \<noteq> [] \<and> (\<forall>c\<in>set (symbol s). isUpper c \<or> isDigit c) \<and>
      js_gt (close s) (Num 0)"
      using v by (simp add: validStock_def)
  qed
  have dropped:
    "symbol x = [] \<or> \<not> js_gt (close x) (Num 0) \<longrightarrow> x \<notin> set (extractStocks rows)"
    by (auto simp: extractStocks_def validStock_def)
  have stored: "reachable db \<and> d \<in> set db \<longrightarrow> toUpperCase (symbol d) = symbol d"
  proof
    assume a: "reachable db \<and> d \<in> set db"
    then have "symbolSetter (symbol d) = symbol d"
      using reachable_invariant [of db] by simp
    then show "toUpperCase (symbol d) = symbol d"
      using toUpperCase_symbolSetter [of "symbol d"] by simp
  qed
  show ?thesis using kept dropped stored by blast
qed

subsection \<open>Upsert and batch save\<close>

lemma filter_distinct_key:
  "distinct (map f xs) \<Longrightarrow> x \<in> set xs \<Longrightarrow> filter (\<lambda>d. f d = f x) xs = [x]"
proof (induction xs)
  case Nil
  then show ?case by simp
next
  case (Cons y ys)
  show ?case
  proof (cases "x = y")
    case True
    have "f d \<noteq> f y" if "d \<in> set ys" for d
      using Cons.prems(1) that by (metis distinct.simps(2) imageI list.simps(9) set_map)
    then have "filter (\<lambda>d. f d = f y) ys = []" by (simp add: filter_empty_conv)
    then show ?thesis using True by simp
  next
    case False
    then have "x \<in> set ys" using Cons.prems by simp
    then have "f x \<in> f ` set ys" by simp
    then have "f y \<noteq> f x" using Cons.prems(1) by auto
    moreover have "filter (\<lambda>d. f d = f x) ys = [x]"
      using Cons.IH Cons.prems \<open>x \<in> set ys\<close> by simp
    ultimately show ?thesis by simp
  qed
qed


lemma truncate_setFields:
  "stockInfo.truncate (setFields u d) =
     u\<lparr>symbol := symbolSetter (symbol u), securityName := trim (securityName u)\<rparr>"
  by (simp add: setFields_def stockInfo.truncate_def)

lemma truncate_newDoc:
  "stockInfo.truncate (newDoc u n) =
     u\<lparr>symbol := symbolSetter (symbol u), securityName := trim (securityName u)\<rparr>"
  by (simp add: newDoc_def stockInfo.truncate_def)

lemma upsert_present:
  assumes "symbolSetter (symbol u) \<in> symbol ` set db"
  shows "\<exists>i<length db. symbol (db ! i) = symbolSetter (symbol u) \<and>
           (\<forall>j<i. symbol (db ! j) \<noteq> symbolSetter (symbol u)) \<and>
           findOneAndUpdate False db (symbol u) u =
             Inr (db[i := setFields u (db ! i)], setFields u (db ! i))"
proof -
  let ?P = "\<lambda>d. symbol d = symbolSetter (symbol u)"
  have "find ?P db \<noteq> None" using assms by (auto simp: find_None_iff)
  then obtain d where f: "find ?P db = Some d" by blast
  then obtain i where i: "i < length db" "?P (db ! i)" "d = db ! i" "\<forall>j<i. \<not> ?P (db ! j)"
    by (auto simp: find_Some_iff)
  have "replaceFirst ?P (setFields u) db = db[i := setFields u (db ! i)]"
    using i by (intro replaceFirst_index) auto
  then have "findOneAndUpdate False db (symbol u) u =
      Inr (db[i := setFields u (db ! i)], setFields u (db ! i))"
    using findOneAndUpdate_present [OF f, of u] i(3) by simp
  then show ?thesis using i by blast
qed

lemma upsert_absent:
  assumes "symbolSetter (symbol u) \<notin> symbol ` set db"
  shows "findOneAndUpdate False db (symbol u) u =
           Inr (db @ [newDoc u (freshId db)], newDoc u (freshId db))"
proof -
  have "find (\<lambda>d. symbol d = symbolSetter (symbol u)) db = None"
    using assms by (auto simp: find_None_iff image_iff)
  then show ?thesis by (rule findOneAndUpdate_absent)
qed

lemma freshId_new: "freshId db \<notin> oid ` set db"
  using oid_less_freshId by fastforce

lemma upsert_twice:
  assumes dist: "distinct (map symbol db)"
  shows "\<exists>db2 s1 s2.
           saveToMongoDB [] db [u\<lparr>scrapedAt := t1\<rparr>, u\<lparr>scrapedAt := t2\<rparr>] = (db2, Inr [s1, s2]) \<and>
           distinct (map symbol db2) \<and>
           filter (\<lambda>d. symbol d = symbolSetter (symbol u)) db2 = [s2] \<and>
           scrapedAt s2 = t2"
proof -
  let ?k = "symbolSetter (symbol u)"
  let ?u1 = "u\<lparr>scrapedAt := t1\<rparr>" and ?u2 = "u\<lparr>scrapedAt := t2\<rparr>"
  obtain db1 s1 where st1: "findOneAndUpdate False db (symbol ?u1) ?u1 = Inr (db1, s1)"
    using findOneAndUpdate_succeeds by blast
  have m1: "map symbol db1 = (if ?k \<in> symbol ` set db then map symbol db else map symbol db @ [?k])"
    using findOneAndUpdate_symbols [OF st1] by simp
  then have in1: "?k \<in> symbol ` set db1"
    by (metis (no_types, lifting) in_set_conv_decomp list.set_map)
  have d1: "distinct (map symbol db1)" using m1 dist by (auto split: if_splits)
  have "symbolSetter (symbol ?u2) \<in> symbol ` set db1" using in1 by simp
  from upsert_present [OF this]
  obtain i where i: "i < length db1"
    and st2: "findOneAndUpdate False db1 (symbol ?u2) ?u2 =
        Inr (db1[i := setFields ?u2 (db1 ! i)], setFields ?u2 (db1 ! i))"
    by blast
  let ?db2 = "db1[i := setFields ?u2 (db1 ! i)]" and ?s2 = "setFields ?u2 (db1 ! i)"
  have m2: "map symbol ?db2 = map symbol db1"
    using findOneAndUpdate_symbols [OF st2] in1 by simp
  then have d2: "distinct (map symbol ?db2)" using d1 by simp
  have mem: "?s2 \<in> set ?db2" using i by (simp add: set_update_memI)
  have "filter (\<lambda>d. symbol d = symbol ?s2) ?db2 = [?s2]"
    using d2 mem by (rule filter_distinct_key)
  then have f: "filter (\<lambda>d. symbol d = ?k) ?db2 = [?s2]" by simp
  have "saveLoop [] db [?u1, ?u2] [] = (?db2, Inr [s1, ?s2])"
    using st1 st2 by simp
  then have "saveToMongoDB [] db [?u1, ?u2] = (?db2, Inr [s1, ?s2])"
    by (simp add: saveToMongoDB_def)
  then show ?thesis using d2 f by (intro exI [of _ ?db2] exI [of _ s1] exI [of _ ?s2]) simp
qed

lemmas store_defs =
  saveToMongoDB_def findOneAndUpdate_def freshId_def newDoc_def setFields_def symbolSetter_def
  sampleStore_def sampleBatch_def sampleInfo_def sampleDoc_def toUpperCase_def upperChar_def
  trim_def isSpace_def Let_def

lemma sampleStore_eq:
  "sampleStore = [sampleDoc ''mtn'' 244 (- (1 / 2)) 1000 0, sampleDoc ''zenith'' 30 (3 / 2) 1001 1]"
  by (simp add: store_defs)

lemma sampleStore_reachable: "reachable sampleStore"
  unfolding sampleStore_def by (intro reachable.saved reachable.initial)

lemma sampleDoc_symbol:
  "symbol (sampleDoc ''mtn'' c ch t n) = ''MTN''" "symbol (sampleDoc ''zenith'' c ch t n) = ''ZENITH''"
  by (simp_all add: store_defs)

text \<open>
  C1. One upsert of a record \<open>u\<close> looks at the symbols of the collection only. When a
  document has the symbol, the first such document keeps its place and its \<open>_id\<close> and
  takes every path from \<open>u\<close>, \<open>scrapedAt\<close> included; no document is added. When none
  has it, a document with the paths of \<open>u\<close> and a new \<open>_id\<close> is appended. Saving the
  same record twice, with the times \<open>t1\<close> and then \<open>t2\<close>, to a collection with one
  document for each symbol leaves one document for each symbol, and the one for the
  record's symbol carries \<open>t2\<close>. Every collection the program has written has one
  document for each symbol.
\<close>

theorem upsert_by_symbol:
  "(symbolSetter (symbol u) \<in> symbol ` set db \<longrightarrow>
      (\<exists>i<length db. symbol (db ! i) = symbolSetter (symbol u) \<and>
         (\<forall>j<i. symbol (db ! j) \<noteq> symbolSetter (symbol u)) \<and>
         findOneAndUpdate False db (symbol u) u =
           Inr (db[i := setFields u (db ! i)], setFields u (db ! i)))) \<and>
   oid (setFields u d) = oid d \<and>
   scrapedAt (setFields u d) = scrapedAt u \<and>
   stockInfo.truncate (setFields u d) =
     u\<lparr>symbol := symbolSetter (symbol u), securityName := trim (securityName u)\<rparr> \<and>
   (symbolSetter (symbol u) \<notin> symbol ` set db \<longrightarrow>
      findOneAndUpdate False db (symbol u) u =
        Inr (db @ [newDoc u (freshId db)], newDoc u (freshId db))) \<and>
   freshId db \<notin> oid ` set db \<and>
   stockInfo.truncate (newDoc u n) =
     u\<lparr>symbol := symbolSetter (symbol u), securityName := trim (securityName u)\<rparr> \<and>
   (distinct (map symbol db) \<longrightarrow>
      (\<exists>db2 s1 s2.
         saveToMongoDB [] db [u\<lparr>scrapedAt := t1\<rparr>, u\<lparr>scrapedAt := t2\<rparr>] = (db2, Inr [s1, s2]) \<and>
         distinct (map symbol db2) \<and>
         filter (\<lambda>d. symbol d = symbolSetter (symbol u)) db2 = [s2] \<and>
         scrapedAt s2 = t2)) \<and>
   (reachable db \<longrightarrow> distinct (map symbol db))"
proof -
  have one_each: "reachable db \<longrightarrow> distinct (map symbol db)"
    using reachable_invariant [of db] by blast
  have present: "symbolSetter (symbol u) \<in> symbol ` set db \<longrightarrow>
      (\<exists>i<length db. symbol (db ! i) = symbolSetter (symbol u) \<and>
         (\<forall>j<i. symbol (db ! j) \<noteq> symbolSetter (symbol u)) \<and>
         findOneAndUpdate False db (symbol u) u =
           Inr (db[i := setFields u (db ! i)], setFields u (db ! i)))"
    using upsert_present by blast
  have absent: "symbolSetter (symbol u) \<notin> symbol ` set db \<longrightarrow>
      findOneAndUpdate False db (symbol u) u =
        Inr (db @ [newDoc u (freshId db)], newDoc u (freshId db))"
    using upsert_absent by blast
  have twice: "distinct (map symbol db) \<longrightarrow>
      (\<exists>db2 s1 s2.
         saveToMongoDB [] db [u\<lparr>scrapedAt := t1\<rparr>, u\<lparr>scrapedAt := t2\<rparr>] = (db2, Inr [s1, s2]) \<and>
         distinct (map symbol db2) \<and>
         filter (\<lambda>d. symbol d = symbolSetter (symbol u)) db2 = [s2] \<and>
         scrapedAt s2 = t2)"
    using upsert_twice by blast
  show ?thesis
    using present absent twice one_each freshId_new [of db] truncate_setFields [of u d]
      truncate_newDoc [of u n]
    by (simp only: oid_setFields scrapedAt_setFields simp_thms)
qed

lemma sample_symbols:
  "symbol (sampleInfo s c ch t) = s"
  "symbolSetter ''mtn'' = ''MTN''" "symbolSetter ''gtco'' = ''GTCO''"
  "map symbol sampleStore = [''MTN'', ''ZENITH'']"
  by (simp_all add: sampleStore_eq sampleDoc_symbol) (simp_all add: store_defs)

theorem upsert_by_symbol_witness:
  "symbolSetter (symbol (sampleInfo ''mtn'' 250 1 2000)) \<in> symbol ` set sampleStore \<and>
   (\<exists>i<length sampleStore.
      symbol (sampleStore ! i) = symbolSetter (symbol (sampleInfo ''mtn'' 250 1 2000)) \<and>
      findOneAndUpdate False sampleStore (symbol (sampleInfo ''mtn'' 250 1 2000))
          (sampleInfo ''mtn'' 250 1 2000) =
        Inr (sampleStore[i := setFields (sampleInfo ''mtn'' 250 1 2000) (sampleStore ! i)],
             setFields (sampleInfo ''mtn'' 250 1 2000) (sampleStore ! i))) \<and>
   symbolSetter (symbol (sampleInfo ''gtco'' 40 0 2000)) \<notin> symbol ` set sampleStore \<and>
   findOneAndUpdate False sampleStore (symbol (sampleInfo ''gtco'' 40 0 2000))
       (sampleInfo ''gtco'' 40 0 2000) =
     Inr (sampleStore @ [newDoc (sampleInfo ''gtco'' 40 0 2000) (freshId sampleStore)],
          newDoc (sampleInfo ''gtco'' 40 0 2000) (freshId sampleStore)) \<and>
   reachable sampleStore \<and> distinct (map symbol sampleStore) \<and>
   (\<exists>db2 s1 s2.
      saveToMongoDB [] sampleStore
          [(sampleInfo ''mtn'' 250 1 2000)\<lparr>scrapedAt := 3000\<rparr>,
           (sampleInfo ''mtn'' 250 1 2000)\<lparr>scrapedAt := 4000\<rparr>] = (db2, Inr [s1, s2]) \<and>
      distinct (map symbol db2) \<and>
      filter (\<lambda>d. symbol d = symbolSetter (symbol (sampleInfo ''mtn'' 250 1 2000))) db2 = [s2] \<and>
      scrapedAt s2 = 4000)"
proof -
  have "set (map symbol sampleStore) = {''MTN'', ''ZENITH''}"
    by (simp only: sample_symbols) simp
  then have s: "symbol ` set sampleStore = {''MTN'', ''ZENITH''}" by simp
  have h1: "symbolSetter (symbol (sampleInfo ''mtn'' 250 1 2000)) \<in> symbol ` set sampleStore"
    by (simp add: s sample_symbols)
  have h2: "symbolSetter (symbol (sampleInfo ''gtco'' 40 0 2000)) \<notin> symbol ` set sampleStore"
    by (simp add: s sample_symbols)
  have h3: "distinct (map symbol sampleStore)"
    by (simp add: sample_symbols)
  note a = upsert_by_symbol [of "sampleInfo ''mtn'' 250 1 2000" sampleStore
      "hd sampleStore" 2 3000 4000]
  note b = upsert_by_symbol [of "sampleInfo ''gtco'' 40 0 2000" sampleStore
      "hd sampleStore" 2 3000 4000]
  have c1: "\<exists>i<length sampleStore.
      symbol (sampleStore ! i) = symbolSetter (symbol (sampleInfo ''mtn'' 250 1 2000)) \<and>
      findOneAndUpdate False sampleStore (symbol (sampleInfo ''mtn'' 250 1 2000))
          (sampleInfo ''mtn'' 250 1 2000) =
        Inr (sampleStore[i := setFields (sampleInfo ''mtn'' 250 1 2000) (sampleStore ! i)],
             setFields (sampleInfo ''mtn'' 250 1 2000) (sampleStore ! i))"
    using a h1 by blast
  have c2: "findOneAndUpdate False sampleStore (symbol (sampleInfo ''gtco'' 40 0 2000))
       (sampleInfo ''gtco'' 40 0 2000) =
     Inr (sampleStore @ [newDoc (sampleInfo ''gtco'' 40 0 2000) (freshId sampleStore)],
          newDoc (sampleInfo ''gtco'' 40 0 2000) (freshId sampleStore))"
    using b h2 by blast
  have c3: "\<exists>db2 s1 s2.
      saveToMongoDB [] sampleStore
          [(sampleInfo ''mtn'' 250 1 2000)\<lparr>scrapedAt := 3000\<rparr>,
           (sampleInfo ''mtn'' 250 1 2000)\<lparr>scrapedAt := 4000\<rparr>] = (db2, Inr [s1, s2]) \<and>
      distinct (map symbol db2) \<and>
      filter (\<lambda>d. symbol d = symbolSetter (symbol (sampleInfo ''mtn'' 250 1 2000))) db2 = [s2] \<and>
      scrapedAt s2 = 4000"
    using a h3 by blast
  have c4: "distinct (map symbol sampleStore)" using a sampleStore_reachable by blast
  show ?thesis using h1 h2 c1 c2 c3 c4 sampleStore_reachable by blast
qed

theorem extraction_filter_witness:
  "rowStock sampleRow1 \<in> set (extractStocks sampleTable) \<and>
   symbol (rowStock sampleRow1) \<noteq> [] \<and>
   js_gt (close (rowStock sampleRow1)) (Num 0) \<and>
   symbol ((rowStock sampleRow1)\<lparr>symbol := []\<rparr>) = [] \<and>
   (rowStock sampleRow1)\<lparr>symbol := []\<rparr> \<notin> set (extractStocks sampleTable) \<and>
   reachable sampleStore \<and>
   sampleDoc ''mtn'' 244 (- (1 / 2)) 1000 0 \<in> set sampleStore \<and>
   toUpperCase (symbol (sampleDoc ''mtn'' 244 (- (1 / 2)) 1000 0)) =
     symbol (sampleDoc ''mtn'' 244 (- (1 / 2)) 1000 0)"
proof -
  note t = extraction_filter [of "rowStock sampleRow1" sampleTable
      "(rowStock sampleRow1)\<lparr>symbol := []\<rparr>" sampleStore
      "sampleDoc ''mtn'' 244 (- (1 / 2)) 1000 0"]
  have "extractStocks sampleTable = [rowStock sampleRow1, rowStock sampleRow3]"
    unfolding sampleTable_def
    by (simp add: extractStocks_eq sample_lengths sample_valid)
  then have h1: "rowStock sampleRow1 \<in> set (extractStocks sampleTable)" by simp
  have h2: "symbol ((rowStock sampleRow1)\<lparr>symbol := []\<rparr>) = []" by simp
  have h3: "sampleDoc ''mtn'' 244 (- (1 / 2)) 1000 0 \<in> set sampleStore"
    by (simp add: sampleStore_eq)
  show ?thesis using t h1 h2 h3 sampleStore_reachable by blast
qed




subsection \<open>The collections of the scraper\<close>

lemma scrape_store:
  "fst (scrapeStockData (Inr rows) clock faults db) =
     fst (saveToMongoDB faults db (addMetadata clock (extractStocks rows)))"
  by (simp add: scrapeStockData_def split: prod.splits sum.splits)

lemma scrape_failed: "fst (scrapeStockData (Inl e) clock faults db) = db"
  by (simp add: scrapeStockData_def)


lemma findOneAndUpdate_docs:
  assumes step: "findOneAndUpdate False db symb u = Inr (db', stock)"
    and old: "\<forall>d\<in>set db. P d" and new: "\<And>n. P (newDoc u n)"
  shows "\<forall>d\<in>set db'. P d"
proof (cases "find (\<lambda>d. symbol d = symbolSetter symb) db")
  case None
  then have "db' = db @ [newDoc u (freshId db)]"
    using step by (auto simp: findOneAndUpdate_absent)
  then show ?thesis using old new by auto
next
  case (Some d)
  then have "db' = replaceFirst (\<lambda>d. symbol d = symbolSetter symb) (setFields u) db"
    using step by (auto simp: findOneAndUpdate_present)
  then have "set db' \<subseteq> set db \<union> range (setFields u)"
    using set_replaceFirst [of "\<lambda>d. symbol d = symbolSetter symb" "setFields u" db] by auto
  moreover have "P (setFields u e)" for e
    using new [of "oid e"] by (simp add: setFields_eq_newDoc)
  ultimately show ?thesis using old by auto
qed

lemma saveLoop_docs:
  assumes "\<forall>d\<in>set db. P d" and "\<forall>u\<in>set xs. \<forall>n. P (newDoc u n)"
  shows "\<forall>d\<in>set (fst (saveLoop faults db xs saved)). P d"
  using assms
proof (induction xs arbitrary: faults db saved)
  case Nil
  then show ?case by simp
next
  case (Cons x xs)
  show ?case
  proof (cases "faults \<noteq> [] \<and> hd faults")
    case True
    then have "saveLoop faults db (x # xs) saved = (db, Inl MongoError)" by (rule saveLoop_fault)
    then show ?thesis using Cons.prems by simp
  next
    case False
    obtain db' stock where step: "findOneAndUpdate False db (symbol x) x = Inr (db', stock)"
      using findOneAndUpdate_succeeds by blast
    have "\<And>n. P (newDoc x n)" using Cons.prems(2) by simp
    then have inv: "\<forall>d\<in>set db'. P d"
      using findOneAndUpdate_docs [OF step Cons.prems(1)] by blast
    have rest: "\<forall>u\<in>set xs. \<forall>n. P (newDoc u n)" using Cons.prems(2) by simp
    have "saveLoop faults db (x # xs) saved = saveLoop (tl faults) db' xs (saved @ [stock])"
      using False step by (rule saveLoop_step)
    then show ?thesis using Cons.IH [OF inv rest] by simp
  qed
qed

lemma saveToMongoDB_docs:
  assumes "\<forall>d\<in>set db. P d" and "\<forall>u\<in>set xs. \<forall>n. P (newDoc u n)"
  shows "\<forall>d\<in>set (fst (saveToMongoDB faults db xs)). P d"
proof (cases "xs = []")
  case True
  then show ?thesis using assms(1) by (simp add: saveToMongoDB_def)
next
  case False
  then show ?thesis
    using saveLoop_docs [OF assms, of faults "[]"] by (simp add: saveToMongoDB_def)
qed

lemma addMetadata_elems:
  "u \<in> set (addMetadata clock xs) \<Longrightarrow> \<exists>s\<in>set xs. \<exists>t. u = withScrapedAt s t"
  by (auto simp: addMetadata_def in_set_enumerate_eq)

lemma extracted_stock:
  assumes "s \<in> set (extractStocks rows)"
  shows "js_gt (close s) (Num 0) \<and> change s \<noteq> NaN"
proof -
  have v: "validStock s" and "s \<in> set (pushRows [] rows)"
    using assms by (simp_all add: extractStocks_def)
  then obtain cells where "s = rowStock cells" by (auto simp: pushRows_eq)
  then have "change s = parseNumber (Some (cells ! 6))" by (simp add: rowStock_def)
  then have "change s \<noteq> NaN" by (simp add: parseNumber_not_NaN)
  then show ?thesis using v by (simp add: validStock_def)
qed

lemma scraped_docs:
  "scraped db \<Longrightarrow> \<forall>d\<in>set db. js_gt (close d) (Num 0) \<and> change d \<noteq> NaN"
proof (induction rule: scraped.induct)
  case nothing
  then show ?case by simp
next
  case (scrape db outcome clock faults)
  show ?case
  proof (cases outcome)
    case (Inl e)
    then show ?thesis using scrape.IH by (simp add: scrape_failed)
  next
    case (Inr rows)
    let ?P = "\<lambda>d :: stockDoc. js_gt (close d) (Num 0) \<and> change d \<noteq> NaN"
    have "\<forall>u\<in>set (addMetadata clock (extractStocks rows)). \<forall>n. ?P (newDoc u n)"
    proof (intro ballI allI)
      fix u n
      assume "u \<in> set (addMetadata clock (extractStocks rows))"
      then obtain s t where "s \<in> set (extractStocks rows)" "u = withScrapedAt s t"
        using addMetadata_elems by blast
      then show "?P (newDoc u n)"
        using extracted_stock [of s rows] by (simp add: newDoc_def withScrapedAt_def)
    qed
    then have "\<forall>d\<in>set (fst (saveToMongoDB faults db (addMetadata clock (extractStocks rows)))). ?P d"
      using saveToMongoDB_docs [of db ?P] scrape.IH by blast
    then show ?thesis using Inr by (simp add: scrape_store)
  qed
qed






lemma sampleSummaryRow_stock:
  "rowStock sampleSummaryRow =
     \<lparr> symbol = ''SUMMARY'', securityName = ''Market summary'', openPrice = Num 1,
       high = Num 1, low = Num 1, close = Num 1, change = Num 0,
       dailyVolume = Num 5, dailyValue = Num 0 \<rparr>"
  by (simp add: rowStock_def sampleSummaryRow_def ninthCell_def clean_defs parse_defs)

lemma sampleScraped_eq:
  "sampleScraped =
     [\<lparr> symbol = ''MTN'', securityName = ''MTN Nigeria'', openPrice = Num 240,
        high = Num (491 / 2), low = Num 239, close = Num 244, change = Num (- (1 / 2)),
        dailyVolume = Num 1000, dailyValue = Num 244000, scrapedAt = 1000, oid = 0 \<rparr>,
      \<lparr> symbol = ''SUMMARY'', securityName = ''Market summary'', openPrice = Num 1,
        high = Num 1, low = Num 1, close = Num 1, change = Num 0,
        dailyVolume = Num 5, dailyValue = Num 0, scrapedAt = 1001, oid = 1 \<rparr>,
      \<lparr> symbol = ''ZENITH'', securityName = ''Zenith Bank'', openPrice = Num 30,
        high = Num 31, low = Num (59 / 2), close = Num 30, change = Num (3 / 2),
        dailyVolume = Num 10, dailyValue = Num 0, scrapedAt = 1002, oid = 2 \<rparr>]"
proof -
  have len: "length sampleSummaryRow = 8" by (simp add: sampleSummaryRow_def)
  have v: "validStock (rowStock sampleSummaryRow)"
    by (simp add: validStock_def sampleSummaryRow_stock)
  have e: "extractStocks [sampleRow1, sampleSummaryRow, sampleRow3] =
      [rowStock sampleRow1, rowStock sampleSummaryRow, rowStock sampleRow3]"
    by (simp add: extractStocks_eq sample_lengths sample_valid len v)
  have m: "addMetadata sampleClock [rowStock sampleRow1, rowStock sampleSummaryRow, rowStock sampleRow3] =
      [withScrapedAt (rowStock sampleRow1) 1000, withScrapedAt (rowStock sampleSummaryRow) 1001,
       withScrapedAt (rowStock sampleRow3) 1002]"
    by (simp add: addMetadata_def sampleClock_def enumerate_eq_zip upt_rec)
  show ?thesis
    unfolding sampleScraped_def scrape_store e m
    by (simp add: sampleRow1_stock sampleSummaryRow_stock sampleRow3_stock withScrapedAt_def
        saveToMongoDB_def findOneAndUpdate_def freshId_def newDoc_def setFields_def
        symbolSetter_def toUpperCase_def upperChar_def trim_def isSpace_def Let_def)
qed

lemma sampleScraped_scraped: "scraped sampleScraped"
  unfolding sampleScraped_def by (intro scraped.scrape scraped.nothing)

subsection \<open>The lookup by symbol\<close>










section \<open>Properties of the query layer\<close>

subsection \<open>Numbers\<close>

lemma dblLimit_pos: "0 < dblLimit"
  by (simp add: dblLimit_def)

lemma dblTiny_pos: "0 < dblTiny"
  by (simp add: dblTiny_def)

lemma toDouble_zero [simp]: "toDouble 0 = Num 0"
  using dblLimit_pos dblTiny_pos by (simp add: toDouble_def)

lemma toDouble_cases:
  "toDouble v = PosInf \<or> toDouble v = NegInf \<or> toDouble v = Num 0 \<or> toDouble v = Num v"
  by (simp add: toDouble_def)

lemma toDouble_not_NaN [simp]: "toDouble v \<noteq> NaN"
  by (simp add: toDouble_def)

lemma mongo_le_total: "mongo_le a b \<or> mongo_le b a"
  by (cases a; cases b) auto


lemma mongo_le_refl [simp]: "mongo_le a a"
  by (cases a) auto

lemma mongo_sign_split:
  "(if mongo_gt c (Num 0) then 1 else 0) + (if mongo_lt c (Num 0) then 1 else 0) +
   (if mongo_eq c (Num 0) then 1 else 0) = (1::nat)"
  using mongo_le_total [of c "Num 0"] by (auto simp: mongo_gt_def mongo_lt_def mongo_eq_def)

lemma mongo_gt_is_js_gt: "c \<noteq> NaN \<Longrightarrow> mongo_gt c (Num 0) = js_gt c (Num 0)"
  by (cases c) (auto simp: mongo_gt_def)

subsection \<open>Sorting\<close>

lemma mset_insertDoc: "mset (insertDoc le x xs) = add_mset x (mset xs)"
  by (induction xs) simp_all

lemma sortDocs_Cons: "sortDocs le (x # xs) = insertDoc le x (sortDocs le xs)"
  by (simp add: sortDocs_def)

lemma mset_sortDocs: "mset (sortDocs le xs) = mset xs"
  by (induction xs) (simp_all add: sortDocs_Cons mset_insertDoc, simp add: sortDocs_def)

lemma set_sortDocs: "set (sortDocs le xs) = set xs"
  using mset_sortDocs [of le xs] by (metis set_mset_mset)

lemma length_sortDocs: "length (sortDocs le xs) = length xs"
  using mset_sortDocs [of le xs] by (metis size_mset)

lemma set_insertDoc: "set (insertDoc le x xs) = insert x (set xs)"
  using mset_insertDoc [of le x xs] by (metis set_mset_add_mset_insert set_mset_mset)

lemma sorted_insertDoc:
  assumes total: "\<And>a b. le a b \<or> le b a"
    and trans: "\<And>a b c. le a b \<Longrightarrow> le b c \<Longrightarrow> le a c"
  shows "sorted_wrt le xs \<Longrightarrow> sorted_wrt le (insertDoc le x xs)"
proof (induction xs)
  case Nil
  then show ?case by simp
next
  case (Cons y ys)
  show ?case
  proof (cases "le x y")
    case True
    have "le x z" if "z \<in> set ys" for z
      using Cons.prems that True trans by auto
    then show ?thesis using True Cons.prems by simp
  next
    case False
    then have "le y x" using total by blast
    then show ?thesis using False Cons by (simp add: set_insertDoc)
  qed
qed

lemma sorted_sortDocs:
  assumes "\<And>a b. le a b \<or> le b a" and "\<And>a b c. le a b \<Longrightarrow> le b c \<Longrightarrow> le a c"
  shows "sorted_wrt le (sortDocs le xs)"
proof (induction xs)
  case Nil
  then show ?case by (simp add: sortDocs_def)
next
  case (Cons x xs)
  then show ?case
    using sorted_insertDoc [of le "sortDocs le xs" x] assms by (simp add: sortDocs_Cons)
qed

lemma count_filter_mset:
  "mset xs = mset ys \<Longrightarrow> length (filter P xs) = length (filter P ys)"
proof -
  assume "mset xs = mset ys"
  then have "mset (filter P xs) = mset (filter P ys)" by (simp only: mset_filter)
  then show ?thesis by (metis size_mset)
qed

subsection \<open>changePercent\<close>

lemma changePercent_close_zero:
  "js_eq (close d) (Num 0) \<Longrightarrow> changePercent d = Num 0"
  by (simp add: changePercent_def)

lemma formula_change_zero:
  assumes "change d = Num 0" and "close d \<noteq> NaN"
  shows "changePercentFormula d = Num 0"
proof -
  have neg: "js_neg (Num 0) = Num 0" by simp
  have "js_sub (close d) (change d) = js_add (close d) (Num 0)"
    using assms(1) by (simp add: js_sub_def)
  moreover have "js_add (close d) (Num 0) \<noteq> NaN"
    using assms(2) by (cases "close d") simp_all
  ultimately have den: "js_sub (close d) (change d) \<noteq> NaN" by simp
  have "js_mul (js_div (Num 0) x) (Num 100) = Num 0" if "x \<noteq> NaN" "\<not> js_eq x (Num 0)" for x
    using that by (cases x) (simp_all add: js_eq_def)
  then show ?thesis
    using den assms(1) by (simp add: changePercentFormula_def Let_def)
qed

lemma changePercent_formula:
  assumes "close d \<noteq> NaN" and "change d \<noteq> NaN" and "\<not> js_eq (close d) (Num 0)"
  shows "changePercent d = changePercentFormula d"
proof (cases "js_eq (change d) (Num 0)")
  case True
  then have c: "change d = Num 0" by (simp add: js_eq_def)
  have "changePercent d = Num 0" using True by (simp add: changePercent_def)
  then show ?thesis using formula_change_zero [OF c assms(1)] by simp
next
  case False
  then show ?thesis
    using assms(3) by (simp add: changePercent_def changePercentFormula_def)
qed

lemmas num_defs = js_sub_def js_eq_def toDouble_def dblLimit_def dblTiny_def signedInf_def

lemma js_gt_zero: "js_gt c (Num 0) \<Longrightarrow> c \<noteq> NaN \<and> \<not> js_eq c (Num 0)"
  by (cases c) (auto simp: js_eq_def)

lemma changePercent_positive_close:
  assumes "js_gt (close x) (Num 0)" and "change x \<noteq> NaN"
  shows "changePercent x = changePercentFormula x"
  using js_gt_zero [OF assms(1)] assms(2) changePercent_formula [of x] by blast

text \<open>
  C9. For every document of a collection the program stores, the getter returns
  \<open>change / (close - change) * 100\<close>, or 0 when the denominator \<open>close - change\<close> is 0:
  the scraper keeps a row only when its close is above 0, so the guard of the getter on
  a close of 0 never decides the value of a stored document. The same holds of every
  record with a close above 0 and a change that is a number, stored or not. The value
  is a function of the stored \<open>close\<close> and \<open>change\<close>, not a path of the document.
\<close>

theorem changePercent_stored:
  "(scraped db \<and> d \<in> set db \<longrightarrow> changePercent d = changePercentFormula d) \<and>
   (js_gt (close x) (Num 0) \<and> change x \<noteq> NaN \<longrightarrow> changePercent x = changePercentFormula x) \<and>
   (close a = close b \<and> change a = change b \<longrightarrow> changePercent a = changePercent b)"
proof -
  have stored: "scraped db \<and> d \<in> set db \<longrightarrow> js_gt (close d) (Num 0) \<and> change d \<noteq> NaN"
    using scraped_docs [of db] by blast
  have formula: "js_gt (close y) (Num 0) \<and> change y \<noteq> NaN \<longrightarrow>
      changePercent y = changePercentFormula y" for y :: "'z stockRow_scheme"
    using changePercent_positive_close [of y] by blast
  have same: "close a = close b \<and> change a = change b \<longrightarrow> changePercent a = changePercent b"
  proof
    assume "close a = close b \<and> change a = change b"
    then show "changePercent a = changePercent b" by (simp add: changePercent_def Let_def)
  qed
  show ?thesis using stored formula [of d] formula [of x] same by blast
qed

theorem changePercent_stored_witness:
  "scraped sampleScraped \<and> hd sampleScraped \<in> set sampleScraped \<and>
   js_gt (close (hd sampleScraped)) (Num 0) \<and> change (hd sampleScraped) \<noteq> NaN \<and>
   changePercent (hd sampleScraped) = changePercentFormula (hd sampleScraped) \<and>
   changePercentFormula (hd sampleScraped) = Num (- (100 / 489)) \<and>
   hd (tl sampleScraped) \<in> set sampleScraped \<and>
   changePercent (hd (tl sampleScraped)) = changePercentFormula (hd (tl sampleScraped)) \<and>
   changePercentFormula (hd (tl sampleScraped)) = Num 0 \<and>
   close (hd sampleScraped) = close (sampleDoc ''x'' 244 (- (1 / 2)) 7 3) \<and>
   change (hd sampleScraped) = change (sampleDoc ''x'' 244 (- (1 / 2)) 7 3) \<and>
   changePercent (hd sampleScraped) = changePercent (sampleDoc ''x'' 244 (- (1 / 2)) 7 3)"
proof -
  note a = changePercent_stored [of sampleScraped "hd sampleScraped" "hd sampleScraped"
      "hd sampleScraped" "sampleDoc ''x'' 244 (- (1 / 2)) 7 3"]
  note b = changePercent_stored [of sampleScraped "hd (tl sampleScraped)" "hd sampleScraped"
      "hd sampleScraped" "sampleDoc ''x'' 244 (- (1 / 2)) 7 3"]
  have m: "hd sampleScraped \<in> set sampleScraped" "hd (tl sampleScraped) \<in> set sampleScraped"
    by (simp_all add: sampleScraped_eq)
  have f: "close (hd sampleScraped) = Num 244" "change (hd sampleScraped) = Num (- (1 / 2))"
    "close (hd (tl sampleScraped)) = Num 1" "change (hd (tl sampleScraped)) = Num 0"
    by (simp_all add: sampleScraped_eq)
  have g: "close (sampleDoc s c ch t n) = Num c" "change (sampleDoc s c ch t n) = Num ch"
    for s c ch t n
    by (simp_all add: sampleDoc_def sampleInfo_def newDoc_def)
  have v: "changePercentFormula (hd sampleScraped) = Num (- (100 / 489))"
    "changePercentFormula (hd (tl sampleScraped)) = Num 0"
    by (simp_all add: changePercentFormula_def f num_defs Let_def)
  have e: "close (hd sampleScraped) = close (sampleDoc ''x'' 244 (- (1 / 2)) 7 3)"
    "change (hd sampleScraped) = change (sampleDoc ''x'' 244 (- (1 / 2)) 7 3)"
    by (simp_all add: f g)
  have p: "js_gt (close (hd sampleScraped)) (Num 0)" "change (hd sampleScraped) \<noteq> NaN"
    by (simp_all add: f)
  show ?thesis using a b m v e p sampleScraped_scraped by blast
qed

subsection \<open>findLatest\<close>

lemma bySymbolThenLatest_total: "bySymbolThenLatest a b \<or> bySymbolThenLatest b a"
  by (auto simp: bySymbolThenLatest_def)

lemma bySymbolThenLatest_trans:
  "bySymbolThenLatest a b \<Longrightarrow> bySymbolThenLatest b c \<Longrightarrow> bySymbolThenLatest a c"
  by (auto simp: bySymbolThenLatest_def)

lemma set_groupFirst: "set (groupFirst xs) \<subseteq> set xs"
  by (induction xs rule: groupFirst.induct) auto

lemma symbols_groupFirst: "symbol ` set (groupFirst xs) = symbol ` set xs"
proof (induction xs rule: groupFirst.induct)
  case 1
  then show ?case by simp
next
  case (2 d ds)
  have "symbol ` set (d # ds) = insert (symbol d) (symbol ` set (filter (\<lambda>e. symbol e \<noteq> symbol d) ds))"
    by auto
  then show ?case using 2 by simp
qed

lemma distinct_groupFirst: "distinct (map symbol (groupFirst xs))"
proof (induction xs rule: groupFirst.induct)
  case 1
  then show ?case by simp
next
  case (2 d ds)
  have "symbol d \<notin> symbol ` set (filter (\<lambda>e. symbol e \<noteq> symbol d) ds)" by auto
  then have "symbol d \<notin> symbol ` set (groupFirst (filter (\<lambda>e. symbol e \<noteq> symbol d) ds))"
    using symbols_groupFirst [of "filter (\<lambda>e. symbol e \<noteq> symbol d) ds"] by blast
  then show ?case using 2 by simp
qed

lemma groupFirst_latest:
  "sorted_wrt bySymbolThenLatest xs \<Longrightarrow> r \<in> set (groupFirst xs) \<Longrightarrow> d \<in> set xs
     \<Longrightarrow> symbol d = symbol r \<Longrightarrow> scrapedAt d \<le> scrapedAt r"
proof (induction xs rule: groupFirst.induct)
  case 1
  then show ?case by simp
next
  case (2 x xs)
  let ?ys = "filter (\<lambda>e. symbol e \<noteq> symbol x) xs"
  show ?case
  proof (cases "r = x")
    case True
    show ?thesis
    proof (cases "d = x")
      case True
      then show ?thesis using \<open>r = x\<close> by simp
    next
      case False
      then have "d \<in> set xs" using "2.prems"(3) by simp
      then have "bySymbolThenLatest x d" using "2.prems"(1) by simp
      then show ?thesis using True "2.prems"(4) by (simp add: bySymbolThenLatest_def)
    qed
  next
    case False
    then have r: "r \<in> set (groupFirst ?ys)" using "2.prems"(2) by simp
    then have "r \<in> set ?ys" using set_groupFirst by blast
    then have ne: "symbol r \<noteq> symbol x" by simp
    then have "d \<noteq> x" using "2.prems"(4) by auto
    then have d: "d \<in> set ?ys" using "2.prems"(3,4) ne by simp
    have "sorted_wrt bySymbolThenLatest ?ys"
      using "2.prems"(1) by (simp add: sorted_wrt_filter)
    then show ?thesis using "2.IH" r d "2.prems"(4) by blast
  qed
qed

lemma sorted_by_symbol: "sorted (map symbol (sortDocs bySymbol xs))"
proof -
  have f: "bySymbol = (\<lambda>x y. symbol x \<le> symbol y)"
    by (intro ext) (simp add: bySymbol_def)
  have "sorted_wrt bySymbol (sortDocs bySymbol xs)"
    by (rule sorted_sortDocs) (auto simp: bySymbol_def)
  then show ?thesis by (simp add: sorted_wrt_map f)
qed

lemma findLatest_properties:
  assumes perm: "\<forall>xs. mset (groupOrder xs) = mset xs" and pos: "0 < n"
  shows "\<exists>rs. findLatest groupOrder n db = Inr rs \<and> set rs \<subseteq> set db \<and>
           distinct (map symbol rs) \<and>
           (\<forall>r\<in>set rs. \<forall>d\<in>set db. symbol d = symbol r \<longrightarrow> scrapedAt d \<le> scrapedAt r) \<and>
           int (length rs) \<le> n \<and> sorted (map symbol rs) \<and>
           (int (card (symbol ` set db)) \<le> n \<longrightarrow> symbol ` set rs = symbol ` set db)"
proof -
  define srt where "srt = sortDocs bySymbolThenLatest db"
  define grp where "grp = groupOrder (groupFirst srt)"
  define cut where "cut = take (nat n) grp"
  define rs where "rs = sortDocs bySymbol cut"
  have res: "findLatest groupOrder n db = Inr rs"
    using pos by (simp add: findLatest_def rs_def cut_def grp_def srt_def)
  have srt_sorted: "sorted_wrt bySymbolThenLatest srt"
    unfolding srt_def
    using sorted_sortDocs [of bySymbolThenLatest db] bySymbolThenLatest_total
      bySymbolThenLatest_trans by blast
  have srt_set: "set srt = set db" by (simp add: srt_def set_sortDocs)
  have grp_mset: "mset grp = mset (groupFirst srt)" using perm by (simp add: grp_def)
  then have grp_set: "set grp = set (groupFirst srt)" by (metis set_mset_mset)
  have "mset (map symbol grp) = mset (map symbol (groupFirst srt))"
    using grp_mset by (metis mset_map)
  then have grp_dist: "distinct (map symbol grp)"
    using distinct_groupFirst [of srt] by (metis mset_eq_imp_distinct_iff)
  have cut_sub: "set cut \<subseteq> set (groupFirst srt)"
    using grp_set set_take_subset [of "nat n" grp] by (simp add: cut_def)
  have cut_dist: "distinct (map symbol cut)"
    using grp_dist by (simp add: cut_def take_map [symmetric] distinct_take)
  have rs_set: "set rs = set cut" by (simp add: rs_def set_sortDocs)
  have "mset (map symbol rs) = mset (map symbol cut)"
    using mset_sortDocs [of bySymbol cut] by (metis mset_map rs_def)
  then have rs_dist: "distinct (map symbol rs)"
    using cut_dist by (metis mset_eq_imp_distinct_iff)
  have sub: "set rs \<subseteq> set db"
    using rs_set cut_sub set_groupFirst [of srt] srt_set by blast
  have latest: "\<forall>r\<in>set rs. \<forall>d\<in>set db. symbol d = symbol r \<longrightarrow> scrapedAt d \<le> scrapedAt r"
  proof (intro ballI impI)
    fix r d
    assume "r \<in> set rs" "d \<in> set db" "symbol d = symbol r"
    then have "r \<in> set (groupFirst srt)" "d \<in> set srt"
      using rs_set cut_sub srt_set by auto
    then show "scrapedAt d \<le> scrapedAt r"
      using groupFirst_latest [OF srt_sorted] \<open>symbol d = symbol r\<close> by blast
  qed
  have "length rs = length cut" by (simp add: rs_def length_sortDocs)
  then have len: "int (length rs) \<le> n" using pos by (simp add: cut_def)
  have srtd: "sorted (map symbol rs)" unfolding rs_def by (rule sorted_by_symbol)
  have cover: "symbol ` set rs = symbol ` set db" if c: "int (card (symbol ` set db)) \<le> n"
  proof -
    have "length grp = length (groupFirst srt)" using grp_mset by (metis size_mset)
    also have "\<dots> = length (map symbol (groupFirst srt))" by simp
    also have "\<dots> = card (set (map symbol (groupFirst srt)))"
      using distinct_groupFirst [of srt] by (simp only: distinct_card)
    also have "\<dots> = card (symbol ` set db)"
      by (simp add: symbols_groupFirst srt_set)
    finally have "length grp \<le> nat n" using c by simp
    then have "cut = grp" by (simp add: cut_def)
    then show ?thesis using rs_set grp_set symbols_groupFirst [of srt] srt_set by simp
  qed
  show ?thesis using res sub rs_dist latest len srtd cover by blast
qed

text \<open>
  C4. Whatever order the server emits the groups in, and for every collection:
  with a positive limit \<open>findLatest\<close> returns documents of the collection, no two with
  the same symbol, each with the greatest \<open>scrapedAt\<close> among the documents of its
  symbol, at most \<open>n\<close> of them, in ascending order of symbol, and one for every
  symbol when the n allows it. A n that is not positive is refused by the
  server, and nothing is returned.
\<close>

theorem findLatest_latest_per_symbol:
  assumes "\<forall>xs. mset (groupOrder xs) = mset xs"
  shows "(n \<le> 0 \<longrightarrow> findLatest groupOrder n db = Inl MongoError) \<and>
         (0 < n \<longrightarrow>
            (\<exists>rs. findLatest groupOrder n db = Inr rs \<and> set rs \<subseteq> set db \<and>
               distinct (map symbol rs) \<and>
               (\<forall>r\<in>set rs. \<forall>d\<in>set db. symbol d = symbol r \<longrightarrow> scrapedAt d \<le> scrapedAt r) \<and>
               int (length rs) \<le> n \<and> sorted (map symbol rs) \<and>
               (int (card (symbol ` set db)) \<le> n \<longrightarrow> symbol ` set rs = symbol ` set db)))"
proof -
  have refused: "n \<le> 0 \<longrightarrow> findLatest groupOrder n db = Inl MongoError"
    by (simp add: findLatest_def)
  show ?thesis
    using refused findLatest_properties [OF assms, of n db] by blast
qed

lemmas latest_defs =
  findLatest_def sortDocs_def bySymbolThenLatest_def bySymbol_def sampleHistory_def

theorem findLatest_latest_per_symbol_witness:
  "(\<forall>xs :: stockDoc list. mset (rev xs) = mset xs) \<and>
   (0::int) \<le> 0 \<and> findLatest rev 0 sampleHistory = Inl MongoError \<and>
   (0::int) < 1 \<and>
   (\<exists>rs. findLatest rev 1 sampleHistory = Inr rs \<and> set rs \<subseteq> set sampleHistory \<and>
      distinct (map symbol rs) \<and>
      (\<forall>r\<in>set rs. \<forall>d\<in>set sampleHistory. symbol d = symbol r \<longrightarrow> scrapedAt d \<le> scrapedAt r) \<and>
      int (length rs) \<le> 1 \<and> sorted (map symbol rs) \<and>
      (int (card (symbol ` set sampleHistory)) \<le> 1 \<longrightarrow>
         symbol ` set rs = symbol ` set sampleHistory)) \<and>
   findLatest rev 1 sampleHistory = Inr [sampleDoc ''zenith'' 30 (3 / 2) 1001 0] \<and>
   findLatest id 1 sampleHistory = Inr [sampleDoc ''mtn'' 250 0 2000 2] \<and>
   findLatest id 5 sampleHistory =
     Inr [sampleDoc ''mtn'' 250 0 2000 2, sampleDoc ''zenith'' 30 (3 / 2) 1001 0]"
proof -
  have p: "\<forall>xs :: stockDoc list. mset (rev xs) = mset xs" by simp
  note a = findLatest_latest_per_symbol [OF p, of 0 sampleHistory]
  note b = findLatest_latest_per_symbol [OF p, of 1 sampleHistory]
  note s = sampleDoc_symbol
  have t: "scrapedAt (sampleDoc x c ch t n) = t" for x c ch t n
    by (simp add: sampleDoc_def sampleInfo_def newDoc_def)
  have e1: "findLatest rev 1 sampleHistory = Inr [sampleDoc ''zenith'' 30 (3 / 2) 1001 0]"
    by (simp add: latest_defs s t)
  have e2: "findLatest id 1 sampleHistory = Inr [sampleDoc ''mtn'' 250 0 2000 2]"
    by (simp add: latest_defs s t)
  have e3: "findLatest id 5 sampleHistory =
     Inr [sampleDoc ''mtn'' 250 0 2000 2, sampleDoc ''zenith'' 30 (3 / 2) 1001 0]"
    by (simp add: latest_defs s t)
  have z: "(0::int) \<le> 0" "(0::int) < 1" by simp_all
  show ?thesis using a b p e1 e2 e3 z by blast
qed

subsection \<open>getMarketSummary\<close>

lemma recent_split:
  "\<exists>older. mset (recentRecords db @ older) = mset db \<and>
     (\<forall>x\<in>set (recentRecords db). \<forall>r\<in>set older. scrapedAt r \<le> scrapedAt x)"
proof -
  define srt where "srt = sortDocs latestFirst db"
  have "sorted_wrt latestFirst srt"
    unfolding srt_def by (rule sorted_sortDocs) (auto simp: latestFirst_def)
  then have "sorted_wrt latestFirst (take 200 srt @ drop 200 srt)" by simp
  then have "\<forall>x\<in>set (take 200 srt). \<forall>r\<in>set (drop 200 srt). latestFirst x r"
    by (simp only: sorted_wrt_append) blast
  then have a: "\<forall>x\<in>set (recentRecords db). \<forall>r\<in>set (drop 200 srt). scrapedAt r \<le> scrapedAt x"
    by (simp add: recentRecords_def srt_def latestFirst_def)
  have "mset (take 200 srt @ drop 200 srt) = mset db"
    by (simp add: srt_def mset_sortDocs)
  then have "mset (recentRecords db @ drop 200 srt) = mset db"
    by (simp add: recentRecords_def srt_def)
  then show ?thesis using a by blast
qed

lemma length_recentRecords: "length (recentRecords db) = min 200 (length db)"
  by (simp add: recentRecords_def length_sortDocs min.commute)

lemma recentRecords_empty: "(recentRecords db = []) = (db = [])"
  using length_recentRecords [of db] by (cases db) auto

lemma sign_counts:
  "length (filter (\<lambda>d. mongo_gt (change d) (Num 0)) xs) +
   length (filter (\<lambda>d. mongo_lt (change d) (Num 0)) xs) +
   length (filter (\<lambda>d. mongo_eq (change d) (Num 0)) xs) = length xs"
proof (induction xs)
  case Nil
  then show ?case by simp
next
  case (Cons x xs)
  show ?case
    using Cons.IH mongo_sign_split [of "change x"] by (simp split: if_splits)
qed

lemma sign_of_number:
  "mongo_gt (Num v) (Num 0) = (0 < v)" "mongo_lt (Num v) (Num 0) = (v < 0)"
  "mongo_eq (Num v) (Num 0) = (v = 0)"
  by (auto simp: mongo_gt_def mongo_lt_def mongo_eq_def)

lemma summary_of_records:
  "\<exists>s. summaryRoute db = Ok s \<and> totalStocks s = length (recentRecords db) \<and>
     gainers s = length (filter (\<lambda>d. mongo_gt (change d) (Num 0)) (recentRecords db)) \<and>
     losers s = length (filter (\<lambda>d. mongo_lt (change d) (Num 0)) (recentRecords db)) \<and>
     unchanged s = length (filter (\<lambda>d. mongo_eq (change d) (Num 0)) (recentRecords db)) \<and>
     totalVolume s = sumOf (map dailyVolume (recentRecords db)) \<and>
     totalValue s = sumOf (map dailyValue (recentRecords db)) \<and>
     (db \<noteq> [] \<longrightarrow>
        avgPrice s = js_div (sumOf (map close (recentRecords db)))
                       (Num (of_nat (length (recentRecords db)))))"
proof (cases "recentRecords db = []")
  case True
  then have "summaryRoute db = Ok zeroSummary"
    by (simp add: summaryRoute_def getMarketSummary_def groupAll_def)
  then show ?thesis
    using True recentRecords_empty [of db] by (simp add: zeroSummary_def sumOf_def)
next
  case False
  then show ?thesis
    by (simp add: summaryRoute_def getMarketSummary_def groupAll_def)
qed

lemma three_changes:
  assumes "map change db = [Num 1, Num (- 1), Num 0]"
  shows "\<exists>s. summaryRoute db = Ok s \<and> gainers s = 1 \<and> losers s = 1 \<and> unchanged s = 1"
proof -
  have "length db = 3" using assms by (metis length_map length_Cons list.size(3) numeral_3_eq_3)
  then have "recentRecords db = sortDocs latestFirst db"
    by (simp add: recentRecords_def length_sortDocs)
  then have m: "mset (recentRecords db) = mset db" by (simp add: mset_sortDocs)
  have count: "length (filter (\<lambda>d. P (change d)) (recentRecords db)) =
      length (filter P [Num 1, Num (- 1), Num 0])" for P
  proof -
    have "length (filter (\<lambda>d. P (change d)) (recentRecords db)) =
        length (filter (\<lambda>d. P (change d)) db)"
      using m by (rule count_filter_mset)
    also have "\<dots> = length (filter P (map change db))"
      by (simp add: filter_map comp_def)
    finally show ?thesis using assms by simp
  qed
  obtain s where s: "summaryRoute db = Ok s"
    "gainers s = length (filter (\<lambda>d. mongo_gt (change d) (Num 0)) (recentRecords db))"
    "losers s = length (filter (\<lambda>d. mongo_lt (change d) (Num 0)) (recentRecords db))"
    "unchanged s = length (filter (\<lambda>d. mongo_eq (change d) (Num 0)) (recentRecords db))"
    using summary_of_records [of db] by blast
  have "gainers s = 1"
    using s(2) count [of "\<lambda>c. mongo_gt c (Num 0)"] by (simp add: sign_of_number)
  moreover have "losers s = 1"
    using s(3) count [of "\<lambda>c. mongo_lt c (Num 0)"] by (simp add: sign_of_number)
  moreover have "unchanged s = 1"
    using s(4) count [of "\<lambda>c. mongo_eq c (Num 0)"] by (simp add: sign_of_number)
  ultimately show ?thesis using s(1) by blast
qed

text \<open>
  C5. The summary is computed over \<open>recentRecords\<close>: the collection is split into
  these and older documents, none of which is more recent than any of them; they are
  200 documents, or all when there are fewer, whatever their symbols. Each of them
  counts once, as a gainer, a loser or unchanged by the sign of its change, so the
  three counts add up to \<open>totalStocks\<close>; the totals are the sums over them. Three
  documents with the changes +1, -1 and 0 give one gainer, one loser and one
  unchanged. On the empty collection the route answers with the all-zero summary.
\<close>

theorem marketSummary_recent_window:
  "summaryRoute [] = Ok zeroSummary \<and>
   (\<exists>older. mset (recentRecords db @ older) = mset db \<and>
      (\<forall>x\<in>set (recentRecords db). \<forall>r\<in>set older. scrapedAt r \<le> scrapedAt x)) \<and>
   length (recentRecords db) = min 200 (length db) \<and>
   (\<exists>s. summaryRoute db = Ok s \<and> totalStocks s = length (recentRecords db) \<and>
      gainers s = length (filter (\<lambda>d. mongo_gt (change d) (Num 0)) (recentRecords db)) \<and>
      losers s = length (filter (\<lambda>d. mongo_lt (change d) (Num 0)) (recentRecords db)) \<and>
      unchanged s = length (filter (\<lambda>d. mongo_eq (change d) (Num 0)) (recentRecords db)) \<and>
      gainers s + losers s + unchanged s = totalStocks s \<and>
      totalVolume s = sumOf (map dailyVolume (recentRecords db)) \<and>
      totalValue s = sumOf (map dailyValue (recentRecords db)) \<and>
      (db \<noteq> [] \<longrightarrow>
         avgPrice s = js_div (sumOf (map close (recentRecords db)))
                        (Num (of_nat (length (recentRecords db)))))) \<and>
   mongo_gt (Num v) (Num 0) = (0 < v) \<and> mongo_lt (Num v) (Num 0) = (v < 0) \<and>
   mongo_eq (Num v) (Num 0) = (v = 0) \<and>
   (map change db = [Num 1, Num (- 1), Num 0] \<longrightarrow>
      (\<exists>s. summaryRoute db = Ok s \<and> gainers s = 1 \<and> losers s = 1 \<and> unchanged s = 1))"
proof -
  have empty: "summaryRoute [] = Ok zeroSummary"
    by (simp add: summaryRoute_def getMarketSummary_def groupAll_def recentRecords_def
        sortDocs_def)
  obtain s where s: "summaryRoute db = Ok s" "totalStocks s = length (recentRecords db)"
    "gainers s = length (filter (\<lambda>d. mongo_gt (change d) (Num 0)) (recentRecords db))"
    "losers s = length (filter (\<lambda>d. mongo_lt (change d) (Num 0)) (recentRecords db))"
    "unchanged s = length (filter (\<lambda>d. mongo_eq (change d) (Num 0)) (recentRecords db))"
    "totalVolume s = sumOf (map dailyVolume (recentRecords db))"
    "totalValue s = sumOf (map dailyValue (recentRecords db))"
    "db \<noteq> [] \<longrightarrow>
       avgPrice s = js_div (sumOf (map close (recentRecords db)))
                      (Num (of_nat (length (recentRecords db))))"
    using summary_of_records [of db] by blast
  have "gainers s + losers s + unchanged s = totalStocks s"
    using s(2,3,4,5) sign_counts [of "recentRecords db"] by simp
  then have whole: "\<exists>s. summaryRoute db = Ok s \<and> totalStocks s = length (recentRecords db) \<and>
      gainers s = length (filter (\<lambda>d. mongo_gt (change d) (Num 0)) (recentRecords db)) \<and>
      losers s = length (filter (\<lambda>d. mongo_lt (change d) (Num 0)) (recentRecords db)) \<and>
      unchanged s = length (filter (\<lambda>d. mongo_eq (change d) (Num 0)) (recentRecords db)) \<and>
      gainers s + losers s + unchanged s = totalStocks s \<and>
      totalVolume s = sumOf (map dailyVolume (recentRecords db)) \<and>
      totalValue s = sumOf (map dailyValue (recentRecords db)) \<and>
      (db \<noteq> [] \<longrightarrow>
         avgPrice s = js_div (sumOf (map close (recentRecords db)))
                        (Num (of_nat (length (recentRecords db)))))"
    using s by blast
  have three: "map change db = [Num 1, Num (- 1), Num 0] \<longrightarrow>
      (\<exists>s. summaryRoute db = Ok s \<and> gainers s = 1 \<and> losers s = 1 \<and> unchanged s = 1)"
    by (rule impI) (rule three_changes)
  show ?thesis
    using empty recent_split [of db] length_recentRecords [of db] whole three
      sign_of_number [of v]
    by (intro conjI) assumption+
qed

lemmas summary_defs =
  summaryRoute_def getMarketSummary_def groupAll_def recentRecords_def sortDocs_def
  latestFirst_def sumOf_def mongo_gt_def mongo_lt_def mongo_eq_def sampleChanges_def
  sampleDoc_def sampleInfo_def newDoc_def toDouble_def dblLimit_def dblTiny_def

theorem marketSummary_recent_window_witness:
  "sampleChanges \<noteq> [] \<and> map change sampleChanges = [Num 1, Num (- 1), Num 0] \<and>
   (\<exists>s. summaryRoute sampleChanges = Ok s \<and> gainers s = 1 \<and> losers s = 1 \<and> unchanged s = 1) \<and>
   summaryRoute sampleChanges =
     Ok \<lparr> totalStocks = 3, totalVolume = Num 30, totalValue = Num 300, avgPrice = Num 10,
          gainers = 1, losers = 1, unchanged = 1 \<rparr>"
proof -
  note t = marketSummary_recent_window [of sampleChanges 1]
  have h1: "sampleChanges \<noteq> []" by (simp add: sampleChanges_def)
  have h2: "map change sampleChanges = [Num 1, Num (- 1), Num 0]"
    by (simp add: sampleChanges_def sampleDoc_def sampleInfo_def newDoc_def)
  have e: "summaryRoute sampleChanges =
     Ok \<lparr> totalStocks = 3, totalVolume = Num 30, totalValue = Num 300, avgPrice = Num 10,
          gainers = 1, losers = 1, unchanged = 1 \<rparr>"
    by (simp add: summary_defs)
  show ?thesis using t h1 h2 e by blast
qed

subsection \<open>The listing route\<close>










lemma sortFieldOf_known: "f \<in> set validSortFields \<Longrightarrow> sortFieldOf (Some f) = f"
  by (simp add: sortFieldOf_def)











end
